theory Spec2Isabelle
  imports Complex_Main
begin

section \<open>Python values shared by the three testers\<close>

text \<open>
  Python floats are modelled as real numbers (exact arithmetic); the one non-number the
  code creates on purpose, \<^verbatim>\<open>np.nan\<close>, is a constructor of its own.
  Python integers are \<^typ>\<open>int\<close>. An exception that leaves a function is the
  \<open>Inl\<close> branch of its result.
\<close>

datatype py_error = ValueError | TypeError | ZeroDivisionError | InstrumentError

datatype pyfloat = Fin real | NaN

text \<open>\<^verbatim>\<open>[v]*n\<close>: a list of \<open>n\<close> copies, empty when \<open>n\<close> is negative.\<close>

definition py_rep :: "'a \<Rightarrow> int \<Rightarrow> 'a list" where
  "py_rep v n = replicate (nat n) v"

text \<open>\<^verbatim>\<open>int(x)\<close> on a float truncates towards zero.\<close>

definition py_int :: "real \<Rightarrow> int" where
  "py_int x = (if 0 \<le> x then \<lfloor>x\<rfloor> else \<lceil>x\<rceil>)"

text \<open>
  \<^verbatim>\<open>np.isclose(a, b, atol=atol)\<close> with the default \<^verbatim>\<open>rtol=1e-05\<close>:
  \<^verbatim>\<open>|a - b| <= atol + rtol * |b|\<close>.
\<close>

definition isclose :: "real \<Rightarrow> real \<Rightarrow> real \<Rightarrow> bool" where
  "isclose a b atol = (\<bar>a - b\<bar> \<le> atol + (1 / 100000) * \<bar>b\<bar>)"

section \<open>sin\_tester.py\<close>

subsection \<open>generate\_custom\_sine\_points\<close>

definition generate_custom_sine_points :: "real \<Rightarrow> int \<Rightarrow> int \<Rightarrow> real list" where
  "generate_custom_sine_points amplitude points_per_half cycles =
     (let part1 = map (\<lambda>i. sin (real i * pi / real_of_int points_per_half))
                      [0 ..< nat points_per_half];
          part2 = map (\<lambda>i. sin (real i * pi / real_of_int points_per_half))
                      [nat points_per_half ..< nat (2 * points_per_half)];
          seq_pos = concat (py_rep part1 cycles);
          seq_neg = concat (py_rep part2 cycles);
          full_seq = seq_pos @ seq_neg @ [0]
      in map (\<lambda>v. amplitude * v) full_seq)"

subsection \<open>fit\_linear and determine\_m\_type\<close>

text \<open>
  \<^verbatim>\<open>np.polyfit\<close> and \<^verbatim>\<open>sklearn.metrics.r2_score\<close> are library code computing in
  floating point. They are parameters of the model: \<open>polyfit lib x y\<close> is whatever
  \<^verbatim>\<open>np.polyfit(x, y, 1)\<close> returns as (slope, intercept), \<open>r2_score lib y y_pred\<close> whatever
  \<^verbatim>\<open>r2_score(y, y_pred)\<close> returns, and either may raise. Nothing is assumed about the
  numbers they return; in particular the slope returned for a constant half need not be
  0. A slope that reaches the classification is a finite float, hence a real number:
  \<^verbatim>\<open>r2_score\<close> raises on a prediction that is not finite.
\<close>

record fit_library =
  polyfit :: "real list \<Rightarrow> real list \<Rightarrow> py_error + (real \<times> real)"
  r2_score :: "real list \<Rightarrow> real list \<Rightarrow> py_error + real"

definition fit_linear ::
  "fit_library \<Rightarrow> real list \<Rightarrow> real list \<Rightarrow> py_error + (real \<times> real \<times> real)" where
  "fit_linear lib x y =
     (if length x < 2 then Inr (0, 0, 0)
      else (case polyfit lib x y of
              Inl e \<Rightarrow> Inl e
            | Inr (slope, intercept) \<Rightarrow>
                (let y_pred = map (\<lambda>u. slope * u + intercept) x
                 in (case r2_score lib y y_pred of
                       Inl e \<Rightarrow> Inl e
                     | Inr r2 \<Rightarrow> Inr (slope, intercept, r2)))))"

definition determine_m_type :: "fit_library \<Rightarrow> real list \<Rightarrow> py_error + string" where
  "determine_m_type lib currents =
     (let half = length currents div 2;
          x1 = map real [1 ..< half + 1];
          x2 = map real [1 ..< length currents - half + 1];
          y1 = take half currents;
          y2 = drop half currents
      in (case fit_linear lib x1 y1 of
            Inl e \<Rightarrow> Inl e
          | Inr (k1, _, _) \<Rightarrow>
              (case fit_linear lib x2 y2 of
                 Inl e \<Rightarrow> Inl e
               | Inr (k2, _, _) \<Rightarrow>
                   Inr (if k1 < 0 \<and> k2 > 0 then ''M1''
                        else if k1 < 0 \<and> k2 < 0 then ''M2''
                        else if k1 > 0 \<and> k2 < 0 then ''M3''
                        else if k1 > 0 \<and> k2 > 0 then ''M4''
                        else ''M0''))))"

subsection \<open>A fitting library in exact arithmetic\<close>

text \<open>
  One library to instantiate the parameter with: the least-squares line and the
  coefficient of determination computed without rounding. It is not a model of numpy,
  whose results differ from it in the last bits; it shows that the assumptions made of a
  library below can be met. It answers on vectors of equal length whose abscissae have
  two distinct values.
\<close>

definition exact_polyfit :: "real list \<Rightarrow> real list \<Rightarrow> py_error + (real \<times> real)" where
  "exact_polyfit x y =
     (let n = real (length x);
          sx = sum_list x;
          sy = sum_list y;
          sxx = sum_list (map (\<lambda>u. u * u) x);
          sxy = sum_list (map2 (\<lambda>u v. u * v) x y);
          d = n * sxx - sx * sx
      in if length x = length y
         then (if d = 0 then Inl ValueError
               else (let slope = (n * sxy - sx * sy) / d;
                         intercept = (sy - slope * sx) / n
                     in Inr (slope, intercept)))
         else Inl TypeError)"

definition exact_r2_score :: "real list \<Rightarrow> real list \<Rightarrow> py_error + real" where
  "exact_r2_score y y_pred =
     (let ss_res = sum_list (map2 (\<lambda>u p. (u - p) * (u - p)) y y_pred);
          mean_y = sum_list y / real (length y);
          ss_tot = sum_list (map (\<lambda>u. (u - mean_y) * (u - mean_y)) y)
      in Inr (if ss_tot = 0 then (if ss_res = 0 then 1 else 0)
              else 1 - ss_res / ss_tot))"

definition exact_library :: fit_library where
  "exact_library = \<lparr>polyfit = exact_polyfit, r2_score = exact_r2_score\<rparr>"

text \<open>The sum of squared residuals of the line \<open>a * x + b\<close>, the quantity a least-squares fit minimises.\<close>

definition sse :: "real list \<Rightarrow> real list \<Rightarrow> real \<Rightarrow> real \<Rightarrow> real" where
  "sse x y a b = sum_list (map2 (\<lambda>xi yi. (yi - (a * xi + b))\<^sup>2) x y)"

section \<open>stdp\_tester.py\<close>

text \<open>The attributes of \<^verbatim>\<open>StdpTester\<close> that the sequence generator and the data processing read.\<close>

record StdpTester =
  V_read :: real
  read_num :: int
  V_spike :: real
  spike_num :: int
  V_active :: real
  active_num :: int
  V_rest :: real
  V_time :: real
  V_stop :: real
  stop_num :: int
  time_num :: "real list"
  pre_before_post :: bool

text \<open>The values set by \<^verbatim>\<open>__init__\<close>.\<close>

definition default_tester :: StdpTester where
  "default_tester =
     \<lparr>V_read = 1 / 10, read_num = 5, V_spike = 1 / 2, spike_num = 5,
      V_active = 0, active_num = 1, V_rest = 0, V_time = 0, V_stop = 0, stop_num = 5,
      time_num = [0, 5, 20], pre_before_post = True\<rparr>"

subsection \<open>generate\_voltage\_sequences\<close>

text \<open>What one pass of the loop over \<^verbatim>\<open>time_num\<close> appends to each of the two sequences.\<close>

definition pre_steps :: "StdpTester \<Rightarrow> real \<Rightarrow> real list" where
  "pre_steps s t_1 =
       py_rep (V_read s) (read_num s)
     @ py_rep (V_spike s) (spike_num s)
     @ py_rep (V_rest s) (active_num s + spike_num s)
     @ py_rep (V_time s) (py_int t_1)
     @ py_rep (V_active s) (active_num s)
     @ py_rep (V_read s) (read_num s)
     @ py_rep (V_stop s) (stop_num s)"

definition post_steps :: "StdpTester \<Rightarrow> real \<Rightarrow> real list" where
  "post_steps s t_1 =
       py_rep (V_rest s) (read_num s + spike_num s)
     @ py_rep (V_active s) (active_num s)
     @ py_rep (V_time s) (py_int t_1)
     @ py_rep (V_spike s) (spike_num s)
     @ py_rep (V_rest s) (active_num s + read_num s)
     @ py_rep (V_stop s) (stop_num s)"

fun generate_loop ::
  "StdpTester \<Rightarrow> real list \<Rightarrow> real list \<times> real list \<Rightarrow> real list \<times> real list" where
  "generate_loop s [] (pre_seq, post_seq) = (pre_seq, post_seq)"
| "generate_loop s (t_1 # ts) (pre_seq, post_seq) =
     generate_loop s ts (pre_seq @ pre_steps s t_1, post_seq @ post_steps s t_1)"

definition generate_voltage_sequences :: "StdpTester \<Rightarrow> real list \<times> real list" where
  "generate_voltage_sequences s = generate_loop s (time_num s) ([], [])"

text \<open>The indices at which a sequence holds a given level, used to locate the spike segments.\<close>

definition positions :: "real \<Rightarrow> real list \<Rightarrow> nat list" where
  "positions v xs = filter (\<lambda>i. xs ! i = v) [0 ..< length xs]"

subsection \<open>run\_stdp\_test\<close>

text \<open>One row \<^verbatim>\<open>[t_now, vA, vB, iA, iB]\<close> of the measurement data.\<close>

record sample =
  Time_s :: real
  ChA_V :: real
  ChB_V :: real
  ChA_I :: real
  ChB_I :: real

text \<open>
  The instrument is outside the program. Its behaviour during one run is given by three
  things: whether the reset, the configuration and the four writes before the loop go
  through; for step \<open>i\<close> of the loop either the elapsed time and the two currents read
  back, or \<open>None\<close> when one of the two writes or two queries of that step raises (or a
  reply does not parse as a float); and whether the two writes that switch the outputs
  off go through. The code catches no exception, so each failure leaves
  \<^verbatim>\<open>run_stdp_test\<close> as an exception.
\<close>

record instrument =
  setup_ok :: bool
  step_reply :: "nat \<Rightarrow> (real \<times> real \<times> real) option"
  shutdown_ok :: bool

function stdp_loop ::
  "instrument \<Rightarrow> real list \<Rightarrow> real list \<Rightarrow> nat \<Rightarrow> nat \<Rightarrow> sample list
     \<Rightarrow> py_error + sample list" where
  "stdp_loop ins chanA_seq chanB_seq length_n i data =
     (if length_n \<le> i then Inr data
      else (case step_reply ins i of
              None \<Rightarrow> Inl InstrumentError
            | Some (t_now, iA, iB) \<Rightarrow>
                stdp_loop ins chanA_seq chanB_seq length_n (i + 1)
                  (data @ [\<lparr>Time_s = t_now, ChA_V = chanA_seq ! i, ChB_V = chanB_seq ! i,
                            ChA_I = iA, ChB_I = iB\<rparr>])))"
  by pat_completeness auto
termination
  by (relation "measure (\<lambda>(ins, a, b, n, i, d). n - i)") auto

declare stdp_loop.simps [simp del]

text \<open>\<^verbatim>\<open>if data: t0=data[0][0]; for row in data: row[0]-=t0\<close>\<close>

definition rebase :: "sample list \<Rightarrow> sample list" where
  "rebase data =
     (case data of
        [] \<Rightarrow> []
      | row0 # _ \<Rightarrow> map (\<lambda>row. row\<lparr>Time_s := Time_s row - Time_s row0\<rparr>) data)"

definition run_stdp_test ::
  "StdpTester \<Rightarrow> instrument \<Rightarrow> real list \<Rightarrow> real list \<Rightarrow> py_error + sample list" where
  "run_stdp_test s ins pre_sequence post_sequence =
     (if \<not> setup_ok ins then Inl InstrumentError
      else (let chanA_seq = (if pre_before_post s then pre_sequence else post_sequence);
                chanB_seq = (if pre_before_post s then post_sequence else pre_sequence);
                length_n = min (length chanA_seq) (length chanB_seq)
            in (case stdp_loop ins chanA_seq chanB_seq length_n 0 [] of
                  Inl e \<Rightarrow> Inl e
                | Inr data \<Rightarrow>
                    if \<not> shutdown_ok ins then Inl InstrumentError
                    else Inr (rebase data))))"

subsection \<open>process\_measurement\_data\<close>

text \<open>The columns chosen by \<^verbatim>\<open>pre_before_post\<close>.\<close>

definition preV :: "StdpTester \<Rightarrow> sample \<Rightarrow> real" where
  "preV s row = (if pre_before_post s then ChA_V row else ChB_V row)"

definition preI :: "StdpTester \<Rightarrow> sample \<Rightarrow> real" where
  "preI s row = (if pre_before_post s then ChA_I row else ChB_I row)"

definition postV :: "StdpTester \<Rightarrow> sample \<Rightarrow> real" where
  "postV s row = (if pre_before_post s then ChB_V row else ChA_V row)"

definition read_mask :: "StdpTester \<Rightarrow> sample \<Rightarrow> bool" where
  "read_mask s row = isclose (preV s row) (V_read s) (1 / 100)"

definition spike_pre_mask :: "StdpTester \<Rightarrow> sample \<Rightarrow> bool" where
  "spike_pre_mask s row = isclose (preV s row) (V_spike s) (1 / 100)"

definition spike_post_mask :: "StdpTester \<Rightarrow> sample \<Rightarrow> bool" where
  "spike_post_mask s row = isclose (postV s row) (V_spike s) (1 / 100)"

text \<open>
  \<^verbatim>\<open>for idx in range(0,len(rows),n): block=rows.iloc[idx:idx+n]; if len(block)==n: ...\<close>
  for a positive step \<open>n\<close>, collecting the blocks that pass the test.
\<close>

function group_loop :: "nat \<Rightarrow> nat \<Rightarrow> 'a list \<Rightarrow> 'a list list" where
  "group_loop n idx rows =
     (if n = 0 \<or> length rows \<le> idx then []
      else (let block = take n (drop idx rows)
            in (if length block = n then [block] else []) @ group_loop n (idx + n) rows))"
  by pat_completeness auto
termination
  by (relation "measure (\<lambda>(n, idx, rows). length rows - idx)") auto

declare group_loop.simps [simp del]

text \<open>
  The same loop for any Python integer: \<^verbatim>\<open>range\<close> raises ValueError on a step of 0,
  and is empty on a negative step (its start 0 is not above its stop).
\<close>

definition full_blocks :: "int \<Rightarrow> 'a list \<Rightarrow> py_error + 'a list list" where
  "full_blocks n rows =
     (if n = 0 then Inl ValueError
      else if n < 0 then Inr []
      else Inr (group_loop (nat n) 0 rows))"

definition mean :: "real list \<Rightarrow> real" where
  "mean xs = sum_list xs / real (length xs)"

definition read_groups :: "StdpTester \<Rightarrow> sample list \<Rightarrow> py_error + sample list list" where
  "read_groups s data = full_blocks (read_num s) (filter (read_mask s) data)"

definition read_currents :: "StdpTester \<Rightarrow> sample list \<Rightarrow> py_error + real list" where
  "read_currents s data =
     (case read_groups s data of
        Inl e \<Rightarrow> Inl e
      | Inr groups \<Rightarrow> Inr (map (\<lambda>block. mean (map (preI s) block)) groups))"

definition spike_pre_groups :: "StdpTester \<Rightarrow> sample list \<Rightarrow> py_error + sample list list" where
  "spike_pre_groups s data = full_blocks (spike_num s) (filter (spike_pre_mask s) data)"

definition spike_post_groups :: "StdpTester \<Rightarrow> sample list \<Rightarrow> py_error + sample list list" where
  "spike_post_groups s data = full_blocks (spike_num s) (filter (spike_post_mask s) data)"

definition spike_pre_times :: "StdpTester \<Rightarrow> sample list \<Rightarrow> py_error + real list" where
  "spike_pre_times s data =
     (case spike_pre_groups s data of
        Inl e \<Rightarrow> Inl e
      | Inr groups \<Rightarrow> Inr (map (\<lambda>block. Time_s (hd block)) groups))"

definition spike_post_times :: "StdpTester \<Rightarrow> sample list \<Rightarrow> py_error + real list" where
  "spike_post_times s data =
     (case spike_post_groups s data of
        Inl e \<Rightarrow> Inl e
      | Inr groups \<Rightarrow> Inr (map (\<lambda>block. Time_s (hd block)) groups))"

text \<open>The loop over \<^verbatim>\<open>range(len(read_currents)-1)\<close>.\<close>

definition delta_g_list :: "real list \<Rightarrow> pyfloat list" where
  "delta_g_list rc =
     map (\<lambda>i. let i1 = rc ! i; i2 = rc ! (i + 1)
               in if \<bar>i1\<bar> < 1 / 10 ^ 20 then NaN else Fin ((i2 - i1) / i1))
         [0 ..< length rc - 1]"

text \<open>The loop over \<^verbatim>\<open>range(n_spike_pairs)\<close>.\<close>

definition delta_t_list :: "bool \<Rightarrow> real list \<Rightarrow> real list \<Rightarrow> real list" where
  "delta_t_list pbp pre_times post_times =
     map (\<lambda>i. let dt = post_times ! i - pre_times ! i
               in if \<not> pbp then - dt else dt)
         [0 ..< min (length pre_times) (length post_times)]"

text \<open>
  The result carries the lines printed, then the two arrays returned
  (\<open>delta_t\<close> first, as in the source).
\<close>

definition stdp_process_measurement_data ::
  "StdpTester \<Rightarrow> sample list \<Rightarrow> py_error + (string list \<times> real list \<times> pyfloat list)" where
  "stdp_process_measurement_data s data =
     (case read_currents s data of
        Inl e \<Rightarrow> Inl e
      | Inr rc \<Rightarrow>
     (case spike_pre_times s data of
        Inl e \<Rightarrow> Inl e
      | Inr pre_times \<Rightarrow>
     (case spike_post_times s data of
        Inl e \<Rightarrow> Inl e
      | Inr post_times \<Rightarrow>
         (let delta_g = delta_g_list rc;
              delta_t = delta_t_list (pre_before_post s) pre_times post_times;
              n_min = min (length delta_g) (length delta_t)
          in if n_min = 0
             then Inr ([''[Warning] no valid read/spike pairs found.''], [], [])
             else Inr ([], take n_min delta_t, take n_min delta_g)))))"

text \<open>The data rows \<^verbatim>\<open>save_delta_csv\<close> hands to the CSV writer, after the header.\<close>

definition save_delta_csv_rows :: "real list \<Rightarrow> pyfloat list \<Rightarrow> (real \<times> pyfloat) list" where
  "save_delta_csv_rows dt dg = zip dt dg"

subsection \<open>The block extractor as the specification words it\<close>

text \<open>
  A scan that accumulates a run of matching samples, emits the run when it reaches
  \<open>n\<close> samples and starts a new one, and drops the run when a sample does not match.
\<close>

fun spec_run_blocks :: "nat \<Rightarrow> ('a \<Rightarrow> bool) \<Rightarrow> 'a list \<Rightarrow> 'a list \<Rightarrow> 'a list list" where
  "spec_run_blocks n p run [] = []"
| "spec_run_blocks n p run (x # xs) =
     (if p x
      then (if length (run @ [x]) = n
            then (run @ [x]) # spec_run_blocks n p [] xs
            else spec_run_blocks n p (run @ [x]) xs)
      else spec_run_blocks n p [] xs)"

subsection \<open>Concrete inputs\<close>

text \<open>A tester with blocks of one sample, and one with blocks of two.\<close>

definition tester1 :: StdpTester where
  "tester1 = default_tester\<lparr>read_num := 1, spike_num := 1\<rparr>"

definition tester1_reversed :: StdpTester where
  "tester1_reversed = tester1\<lparr>pre_before_post := False\<rparr>"

definition tester2 :: StdpTester where
  "tester2 = default_tester\<lparr>read_num := 2, spike_num := 1\<rparr>"

text \<open>A read with zero current, a pre spike, a post spike, a read.\<close>

definition data_zero_read :: "sample list" where
  "data_zero_read =
     [\<lparr>Time_s = 0, ChA_V = 1 / 10, ChB_V = 0, ChA_I = 0, ChB_I = 0\<rparr>,
      \<lparr>Time_s = 1, ChA_V = 1 / 2, ChB_V = 0, ChA_I = 5, ChB_I = 0\<rparr>,
      \<lparr>Time_s = 2, ChA_V = 0, ChB_V = 1 / 2, ChA_I = 0, ChB_I = 5\<rparr>,
      \<lparr>Time_s = 3, ChA_V = 1 / 10, ChB_V = 0, ChA_I = 2, ChB_I = 0\<rparr>]"

text \<open>A read on both channels, a spike on A, a spike on B, a read on both channels.\<close>

definition data_both_read :: "sample list" where
  "data_both_read =
     [\<lparr>Time_s = 0, ChA_V = 1 / 10, ChB_V = 1 / 10, ChA_I = 1, ChB_I = 1\<rparr>,
      \<lparr>Time_s = 1, ChA_V = 1 / 2, ChB_V = 0, ChA_I = 5, ChB_I = 0\<rparr>,
      \<lparr>Time_s = 2, ChA_V = 0, ChB_V = 1 / 2, ChA_I = 0, ChB_I = 5\<rparr>,
      \<lparr>Time_s = 3, ChA_V = 1 / 10, ChB_V = 1 / 10, ChA_I = 2, ChB_I = 4\<rparr>]"

text \<open>Two single reads separated by a spike: no run of two matching samples.\<close>

definition row_a :: sample where
  "row_a = \<lparr>Time_s = 0, ChA_V = 1 / 10, ChB_V = 0, ChA_I = 1, ChB_I = 0\<rparr>"

definition row_b :: sample where
  "row_b = \<lparr>Time_s = 1, ChA_V = 1 / 2, ChB_V = 0, ChA_I = 9, ChB_I = 0\<rparr>"

definition row_c :: sample where
  "row_c = \<lparr>Time_s = 2, ChA_V = 1 / 10, ChB_V = 0, ChA_I = 3, ChB_I = 0\<rparr>"

definition data_split_reads :: "sample list" where
  "data_split_reads = [row_a, row_b, row_c]"

text \<open>
  An instrument that answers every step (at time \<open>5 + i\<close>), and one that answers steps
  0, 1 and 2 and fails at step 3.
\<close>

definition steady_reply :: "nat \<Rightarrow> (real \<times> real \<times> real) option" where
  "steady_reply i = Some (5 + real i, 1, 2)"

definition failing_reply :: "nat \<Rightarrow> (real \<times> real \<times> real) option" where
  "failing_reply i = (if i < 3 then Some (5 + real i, 1, 2) else None)"

definition steady_instrument :: instrument where
  "steady_instrument = \<lparr>setup_ok = True, step_reply = steady_reply, shutdown_ok = True\<rparr>"

definition failing_instrument :: instrument where
  "failing_instrument = \<lparr>setup_ok = True, step_reply = failing_reply, shutdown_ok = True\<rparr>"

section \<open>srdp\_tester.py\<close>

text \<open>One row \<^verbatim>\<open>[t, v, i, label]\<close> of the SRDP measurement data.\<close>

record srdp_row =
  Time :: real
  Voltage :: real
  Current :: real
  Label :: string

definition srdp_read_mask :: "real \<Rightarrow> srdp_row \<Rightarrow> bool" where
  "srdp_read_mask v_read row = isclose (Voltage row) v_read (1 / 100)"

text \<open>
  \<^verbatim>\<open>read_data["Current"]/self.V_read\<close>. The rows come from an object array, so the
  column holds Python floats and the division is Python's, element by element: it raises
  ZeroDivisionError at the first element when the divisor is zero, and divides nothing
  when the column is empty.
\<close>

definition column_div :: "real list \<Rightarrow> real \<Rightarrow> py_error + real list" where
  "column_div col d =
     (if col = [] then Inr []
      else if d = 0 then Inl ZeroDivisionError
      else Inr (map (\<lambda>x. x / d) col))"

text \<open>The first argument is \<^verbatim>\<open>self.V_read\<close>.\<close>

definition srdp_process_measurement_data ::
  "real \<Rightarrow> srdp_row list \<Rightarrow> py_error + (real list \<times> real list \<times> real list \<times> real list)" where
  "srdp_process_measurement_data v_read data =
     (let read_data = filter (srdp_read_mask v_read) data
      in (case column_div (map Current read_data) v_read of
            Inl e \<Rightarrow> Inl e
          | Inr conductance \<Rightarrow>
              Inr (map Time read_data, map Voltage read_data, map Current read_data,
                   conductance)))"

text \<open>Two reads at 0.1 V and a write at 1 V; a rest row at 0 V.\<close>

definition srdp_rows :: "srdp_row list" where
  "srdp_rows =
     [\<lparr>Time = 0, Voltage = 1 / 10, Current = 2, Label = ''read_1-1''\<rparr>,
      \<lparr>Time = 1, Voltage = 1, Current = 7, Label = ''write_1-1''\<rparr>,
      \<lparr>Time = 2, Voltage = 21 / 200, Current = 3, Label = ''read_1-2''\<rparr>]"

definition srdp_rest_rows :: "srdp_row list" where
  "srdp_rest_rows = [\<lparr>Time = 0, Voltage = 1 / 1000, Current = 2, Label = ''read_1-1''\<rparr>]"

section \<open>Properties of sin\_tester.py\<close>

lemma length_concat_replicate:
  "length (concat (replicate k xs)) = k * length xs"
  by (induction k) simp_all

text \<open>
  Claim C7. For every amplitude, every half-period point count \<open>n \<ge> 1\<close> and every cycle
  count \<open>c \<ge> 1\<close>, the generated sine-like sequence has length exactly \<open>2 * n * c + 1\<close>
  and its first element is exactly 0.
\<close>

theorem sine_points_length_first:
  assumes "1 \<le> n" and "1 \<le> c"
  shows "int (length (generate_custom_sine_points A n c)) = 2 * n * c + 1
       \<and> generate_custom_sine_points A n c ! 0 = 0"
proof -
  obtain n' where n: "nat n = Suc n'"
    using assms(1) by (cases "nat n") simp_all
  obtain c' where c: "nat c = Suc c'"
    using assms(2) by (cases "nat c") simp_all
  have n2: "nat (2 * n) = 2 * Suc n'" using n assms(1) by (simp add: nat_mult_distrib)
  have "length (generate_custom_sine_points A n c) = 2 * nat n * nat c + 1"
    unfolding generate_custom_sine_points_def Let_def py_rep_def n c n2
    by (simp add: length_concat_replicate)
  also have "int \<dots> = 2 * n * c + 1"
    using assms by simp
  finally have len: "int (length (generate_custom_sine_points A n c)) = 2 * n * c + 1" .
  have first: "generate_custom_sine_points A n c ! 0 = 0"
    unfolding generate_custom_sine_points_def Let_def py_rep_def n c
    by (simp add: upt_conv_Cons del: upt_Suc)
  show ?thesis using len first by simp
qed

theorem sine_points_length_first_witness:
  "(1::int) \<le> 6 \<and> (1::int) \<le> 4
   \<and> int (length (generate_custom_sine_points 1 6 4)) = 49
   \<and> generate_custom_sine_points 1 6 4 ! 0 = 0"
  using sine_points_length_first [of 6 4 1] by simp

subsection \<open>The fitted line and the classification\<close>

lemma sum_index: "sum_list (map real [1 ..< n + 1]) = real n * (real n + 1) / 2"
  by (induction n) (simp_all add: field_simps)

lemma sum_index_sq:
  "sum_list (map (\<lambda>a. a * a) (map real [1 ..< n + 1])) = real n * (real n + 1) * (2 * real n + 1) / 6"
  by (induction n) (simp_all add: field_simps)

lemma index_denominator:
  "real n * sum_list (map (\<lambda>a. a * a) (map real [1 ..< n + 1]))
     - sum_list (map real [1 ..< n + 1]) * sum_list (map real [1 ..< n + 1])
   = (real n)\<^sup>2 * ((real n)\<^sup>2 - 1) / 12"
  unfolding sum_index sum_index_sq by (simp add: field_simps power2_eq_square)

lemma index_denominator_pos:
  assumes "2 \<le> n"
  shows "real n * sum_list (map (\<lambda>a. a * a) (map real [1 ..< n + 1]))
     - sum_list (map real [1 ..< n + 1]) * sum_list (map real [1 ..< n + 1]) > 0"
proof -
  have "real n \<ge> 2" using assms by simp
  then have "2 * 2 \<le> real n * real n" by (intro mult_mono) simp_all
  then have "(real n)\<^sup>2 > 1" by (simp add: power2_eq_square)
  then have "(real n)\<^sup>2 * ((real n)\<^sup>2 - 1) / 12 > 0" using \<open>real n \<ge> 2\<close> by simp
  then show ?thesis unfolding index_denominator .
qed

lemma residual_sum:
  "length x = length y \<Longrightarrow>
   sum_list (map2 (\<lambda>xi yi. yi - (a * xi + b)) x y)
     = sum_list y - a * sum_list x - real (length x) * b"
  by (induction x y rule: list_induct2) (simp_all add: algebra_simps)

lemma residual_moment:
  "length x = length y \<Longrightarrow>
   sum_list (map2 (\<lambda>xi yi. xi * (yi - (a * xi + b))) x y)
     = sum_list (map2 (\<lambda>u v. u * v) x y) - a * sum_list (map (\<lambda>u. u * u) x)
       - (b::real) * sum_list x"
  by (induction x y rule: list_induct2) (simp_all add: algebra_simps)

lemma sse_shift:
  "length x = length y \<Longrightarrow>
   sse x y a b = sse x y k c
     + 2 * (k - a) * sum_list (map2 (\<lambda>xi yi. xi * (yi - (k * xi + c))) x y)
     + 2 * (c - b) * sum_list (map2 (\<lambda>xi yi. yi - (k * xi + c)) x y)
     + sum_list (map (\<lambda>xi. ((k - a) * xi + (c - b))\<^sup>2) x)"
  unfolding sse_def
  by (induction x y rule: list_induct2) (simp_all add: algebra_simps power2_eq_square)

lemma sum_list_sq_nonneg: "0 \<le> sum_list (map (\<lambda>xi. (f xi :: real)\<^sup>2) x)"
  by (induction x) simp_all

lemma exact_polyfit_least_squares:
  assumes "exact_polyfit x y = Inr (k, c)"
  shows "sse x y k c \<le> sse x y a b"
proof -
  let ?n = "real (length x)"
  let ?sx = "sum_list x" and ?sy = "sum_list y"
  let ?sxx = "sum_list (map (\<lambda>a. a * a) x)"
  let ?sxy = "sum_list (map2 (\<lambda>a b. a * b) x y)"
  let ?d = "?n * ?sxx - ?sx * ?sx"
  from assms have len: "length x = length y" and d: "?d \<noteq> 0"
    and k: "k = (?n * ?sxy - ?sx * ?sy) / ?d" and c: "c = (?sy - k * ?sx) / ?n"
    by (auto simp: exact_polyfit_def Let_def split: if_splits)
  have n0: "?n \<noteq> 0" using d by auto
  have e0: "sum_list (map2 (\<lambda>xi yi. yi - (k * xi + c)) x y) = 0"
    unfolding residual_sum [OF len] using n0 c by (simp add: field_simps)
  have kd: "k * ?d = ?n * ?sxy - ?sx * ?sy" using k d by simp
  have cn: "c * ?n = ?sy - k * ?sx" using c n0 by simp
  have "?n * (?sxy - k * ?sxx - c * ?sx) = ?n * ?sxy - k * ?n * ?sxx - (c * ?n) * ?sx"
    by (simp add: algebra_simps)
  also have "\<dots> = ?n * ?sxy - k * ?n * ?sxx - (?sy - k * ?sx) * ?sx"
    unfolding cn ..
  also have "\<dots> = (?n * ?sxy - ?sx * ?sy) - k * ?d" by (simp add: algebra_simps)
  also have "\<dots> = 0" using kd by simp
  finally have "?sxy - k * ?sxx - c * ?sx = 0" using n0 by simp
  then have e1: "sum_list (map2 (\<lambda>xi yi. xi * (yi - (k * xi + c))) x y) = 0"
    unfolding residual_moment [OF len] .
  have "sse x y a b = sse x y k c + sum_list (map (\<lambda>xi. ((k - a) * xi + (c - b))\<^sup>2) x)"
    using sse_shift [OF len, of a b k c] e0 e1 by simp
  then show ?thesis using sum_list_sq_nonneg [of "\<lambda>xi. (k - a) * xi + (c - b)" x] by simp
qed

lemma exact_polyfit_index:
  assumes "2 \<le> n" and "length y = n"
  shows "\<exists>k c. polyfit exact_library (map real [1 ..< n + 1]) y = Inr (k, c)"
  using index_denominator_pos [OF assms(1)] assms(2)
  by (simp add: exact_library_def exact_polyfit_def Let_def)

lemma exact_r2_score_answers: "\<exists>r. r2_score exact_library y p = Inr r"
  by (simp add: exact_library_def exact_r2_score_def Let_def)

text \<open>With fewer than two points no library call is made.\<close>

lemma fit_linear_short: "length x < 2 \<Longrightarrow> fit_linear lib x y = Inr (0, 0, 0)"
  by (simp add: fit_linear_def)

lemma fit_linear_index:
  assumes pf: "\<And>n y. 2 \<le> n \<Longrightarrow> length y = n \<Longrightarrow>
                 \<exists>k c. polyfit lib (map real [1 ..< n + 1]) y = Inr (k, c)"
    and r2: "\<And>y p. 2 \<le> length y \<Longrightarrow> length p = length y \<Longrightarrow> \<exists>r. r2_score lib y p = Inr r"
    and len: "length y = n"
  shows "\<exists>k c r. fit_linear lib (map real [1 ..< n + 1]) y = Inr (k, c, r)
           \<and> (n < 2 \<longrightarrow> k = 0 \<and> c = 0)
           \<and> (2 \<le> n \<longrightarrow> polyfit lib (map real [1 ..< n + 1]) y = Inr (k, c))"
proof (cases "n < 2")
  case True
  then show ?thesis by (simp add: fit_linear_def)
next
  case False
  then have n2: "2 \<le> n" by simp
  let ?x = "map real [1 ..< n + 1]"
  obtain k c where p: "polyfit lib ?x y = Inr (k, c)"
    using pf [OF n2 len] by blast
  have "2 \<le> length y" using n2 len by simp
  moreover have "length (map (\<lambda>u. k * u + c) ?x) = length y" using len by simp
  ultimately obtain r where r: "r2_score lib y (map (\<lambda>u. k * u + c) ?x) = Inr r"
    using r2 by blast
  have "\<not> length ?x < 2" using n2 by simp
  then have "fit_linear lib ?x y = Inr (k, c, r)"
    by (simp only: fit_linear_def if_False p sum.case prod.case Let_def r)
  then show ?thesis using False p by simp
qed

text \<open>An exception raised by the library for the first half leaves the classifier.\<close>

lemma determine_m_type_raises:
  assumes "fit_linear lib (map real [1 ..< length cs div 2 + 1]) (take (length cs div 2) cs)
             = Inl e"
  shows "determine_m_type lib cs = Inl e"
  by (simp only: determine_m_type_def Let_def assms sum.case)

text \<open>
  Claim C6. For every current sequence (and every fitting library that answers on a half
  of two or more points), the classifier splits the sequence at the midpoint index
  \<open>len div 2\<close>, has a least-squares line fitted to each half against its own 1-based
  index, and returns M1 when the two slopes are (negative, positive), M2 when
  (negative, negative), M3 when (positive, negative), M4 when (positive, positive) and
  M0 otherwise; a half of fewer than 2 points yields slope 0 and intercept 0, and an
  exactly-zero slope on either side forces M0.
\<close>

theorem determine_m_type_classifies:
  assumes "\<And>n y. 2 \<le> n \<Longrightarrow> length y = n \<Longrightarrow>
              \<exists>k c. polyfit lib (map real [1 ..< n + 1]) y = Inr (k, c)"
    and "\<And>y p. 2 \<le> length y \<Longrightarrow> length p = length y \<Longrightarrow> \<exists>r. r2_score lib y p = Inr r"
  shows "\<exists>k1 c1 r1 k2 c2 r2.
      fit_linear lib (map real [1 ..< length cs div 2 + 1]) (take (length cs div 2) cs)
        = Inr (k1, c1, r1)
    \<and> fit_linear lib (map real [1 ..< length cs - length cs div 2 + 1])
          (drop (length cs div 2) cs)
        = Inr (k2, c2, r2)
    \<and> (length cs div 2 < 2 \<longrightarrow> k1 = 0 \<and> c1 = 0)
    \<and> (length cs - length cs div 2 < 2 \<longrightarrow> k2 = 0 \<and> c2 = 0)
    \<and> (2 \<le> length cs div 2 \<longrightarrow>
         polyfit lib (map real [1 ..< length cs div 2 + 1]) (take (length cs div 2) cs)
           = Inr (k1, c1))
    \<and> (2 \<le> length cs - length cs div 2 \<longrightarrow>
         polyfit lib (map real [1 ..< length cs - length cs div 2 + 1])
           (drop (length cs div 2) cs) = Inr (k2, c2))
    \<and> (determine_m_type lib cs = Inr ''M1'' \<longleftrightarrow> k1 < 0 \<and> 0 < k2)
    \<and> (determine_m_type lib cs = Inr ''M2'' \<longleftrightarrow> k1 < 0 \<and> k2 < 0)
    \<and> (determine_m_type lib cs = Inr ''M3'' \<longleftrightarrow> 0 < k1 \<and> k2 < 0)
    \<and> (determine_m_type lib cs = Inr ''M4'' \<longleftrightarrow> 0 < k1 \<and> 0 < k2)
    \<and> (determine_m_type lib cs = Inr ''M0'' \<longleftrightarrow> k1 = 0 \<or> k2 = 0)"
proof -
  let ?h = "length cs div 2"
  let ?x1 = "map real [1 ..< ?h + 1]" and ?x2 = "map real [1 ..< length cs - ?h + 1]"
  have l1: "length (take ?h cs) = ?h" by simp
  have l2: "length (drop ?h cs) = length cs - ?h" by simp
  obtain k1 c1 r1 where f1: "fit_linear lib ?x1 (take ?h cs) = Inr (k1, c1, r1)"
    and d1: "?h < 2 \<longrightarrow> k1 = 0 \<and> c1 = 0"
    and p1: "2 \<le> ?h \<longrightarrow> polyfit lib ?x1 (take ?h cs) = Inr (k1, c1)"
    using fit_linear_index [OF assms l1] by blast
  obtain k2 c2 r2 where f2: "fit_linear lib ?x2 (drop ?h cs) = Inr (k2, c2, r2)"
    and d2: "length cs - ?h < 2 \<longrightarrow> k2 = 0 \<and> c2 = 0"
    and p2: "2 \<le> length cs - ?h \<longrightarrow> polyfit lib ?x2 (drop ?h cs) = Inr (k2, c2)"
    using fit_linear_index [OF assms l2] by blast
  have m: "determine_m_type lib cs =
      Inr (if k1 < 0 \<and> k2 > 0 then ''M1''
           else if k1 < 0 \<and> k2 < 0 then ''M2''
           else if k1 > 0 \<and> k2 < 0 then ''M3''
           else if k1 > 0 \<and> k2 > 0 then ''M4''
           else ''M0'')"
    unfolding determine_m_type_def Let_def f1 f2 by simp
  have c1': "determine_m_type lib cs = Inr ''M1'' \<longleftrightarrow> k1 < 0 \<and> 0 < k2" unfolding m by auto
  have c2': "determine_m_type lib cs = Inr ''M2'' \<longleftrightarrow> k1 < 0 \<and> k2 < 0" unfolding m by auto
  have c3': "determine_m_type lib cs = Inr ''M3'' \<longleftrightarrow> 0 < k1 \<and> k2 < 0" unfolding m by auto
  have c4': "determine_m_type lib cs = Inr ''M4'' \<longleftrightarrow> 0 < k1 \<and> 0 < k2" unfolding m by auto
  have c0': "determine_m_type lib cs = Inr ''M0'' \<longleftrightarrow> k1 = 0 \<or> k2 = 0" unfolding m by auto
  show ?thesis
    using f1 f2 d1 d2 p1 p2 c1' c2' c3' c4' c0' by blast
qed

theorem determine_m_type_classifies_witness:
  "2 \<le> length [2, 1, 1, 2 :: real] div 2
   \<and> determine_m_type exact_library [2, 1, 1, 2] = Inr ''M1''
   \<and> length [1, 2, 3 :: real] div 2 < 2
   \<and> determine_m_type exact_library [1, 2, 3] = Inr ''M0''"
proof -
  note th = determine_m_type_classifies [of exact_library, OF exact_polyfit_index
    exact_r2_score_answers]
  obtain k1 c1 k2 c2 :: real where
    p1: "2 \<le> length [2, 1, 1, 2 :: real] div 2 \<longrightarrow>
           polyfit exact_library (map real [1 ..< length [2, 1, 1, 2 :: real] div 2 + 1])
             (take (length [2, 1, 1, 2 :: real] div 2) [2, 1, 1, 2]) = Inr (k1, c1)"
    and p2: "2 \<le> length [2, 1, 1, 2 :: real] - length [2, 1, 1, 2 :: real] div 2 \<longrightarrow>
           polyfit exact_library
             (map real [1 ..< length [2, 1, 1, 2 :: real] - length [2, 1, 1, 2 :: real] div 2 + 1])
             (drop (length [2, 1, 1, 2 :: real] div 2) [2, 1, 1, 2]) = Inr (k2, c2)"
    and m1: "determine_m_type exact_library [2, 1, 1, 2] = Inr ''M1'' \<longleftrightarrow> k1 < 0 \<and> 0 < k2"
    using th [of "[2, 1, 1, 2]"] by blast
  have "k1 = - 1" using p1
    by (simp add: exact_library_def exact_polyfit_def Let_def upt_conv_Cons)
  moreover have "k2 = 1" using p2
    by (simp add: exact_library_def exact_polyfit_def Let_def upt_conv_Cons)
  ultimately have a: "determine_m_type exact_library [2, 1, 1, 2] = Inr ''M1''"
    using m1 by simp
  obtain j1 j2 :: real where
    z: "length [1, 2, 3 :: real] div 2 < 2 \<longrightarrow> j1 = 0"
    and m0: "determine_m_type exact_library [1, 2, 3] = Inr ''M0'' \<longleftrightarrow> j1 = 0 \<or> j2 = 0"
    using th [of "[1, 2, 3]"] by blast
  have b: "determine_m_type exact_library [1, 2, 3] = Inr ''M0''" using z m0 by simp
  show ?thesis using a b by simp
qed

section \<open>Properties of stdp\_tester.py\<close>

subsection \<open>The grouping loop\<close>

lemma group_loop_stop: "n = 0 \<or> length rows \<le> idx \<Longrightarrow> group_loop n idx rows = []"
  by (subst group_loop.simps) simp

lemma group_loop_full:
  "0 < n \<Longrightarrow> idx + n \<le> length rows \<Longrightarrow>
   group_loop n idx rows = take n (drop idx rows) # group_loop n (idx + n) rows"
  by (subst group_loop.simps) (simp add: Let_def)

lemma group_loop_short:
  "0 < n \<Longrightarrow> idx < length rows \<Longrightarrow> length rows < idx + n \<Longrightarrow> group_loop n idx rows = []"
  by (subst group_loop.simps) (simp add: Let_def group_loop_stop)

lemma group_loop_lengths: "g \<in> set (group_loop n idx rows) \<Longrightarrow> length g = n"
proof (induction n idx rows rule: group_loop.induct)
  case (1 n idx rows)
  show ?case
  proof (cases "n = 0 \<or> length rows \<le> idx")
    case True
    with "1.prems" show ?thesis by (simp add: group_loop_stop)
  next
    case False
    then have n: "0 < n" and i: "idx < length rows" by simp_all
    show ?thesis
    proof (cases "idx + n \<le> length rows")
      case True
      with "1.prems" "1.IH" [OF False refl] n show ?thesis
        by (auto simp: group_loop_full)
    next
      case False
      with "1.prems" n i show ?thesis by (simp add: group_loop_short)
    qed
  qed
qed

lemma group_loop_count: "0 < n \<Longrightarrow> length (group_loop n idx rows) = (length rows - idx) div n"
proof (induction n idx rows rule: group_loop.induct)
  case (1 n idx rows)
  show ?case
  proof (cases "length rows \<le> idx")
    case True
    then show ?thesis by (simp add: group_loop_stop)
  next
    case False
    then have i: "idx < length rows" by simp
    have c: "\<not> (n = 0 \<or> length rows \<le> idx)" using "1.prems" False by simp
    show ?thesis
    proof (cases "idx + n \<le> length rows")
      case True
      have "(length rows - idx) div n = Suc ((length rows - (idx + n)) div n)"
        using True "1.prems" by (simp add: le_div_geq)
      with "1.IH" [OF c refl "1.prems"] True "1.prems" show ?thesis
        by (simp add: group_loop_full)
    next
      case False
      with "1.prems" i show ?thesis by (simp add: group_loop_short)
    qed
  qed
qed

lemma group_loop_concat:
  "0 < n \<Longrightarrow>
   concat (group_loop n idx rows) = take (n * ((length rows - idx) div n)) (drop idx rows)"
proof (induction n idx rows rule: group_loop.induct)
  case (1 n idx rows)
  show ?case
  proof (cases "length rows \<le> idx")
    case True
    then show ?thesis by (simp add: group_loop_stop)
  next
    case False
    then have i: "idx < length rows" by simp
    have c: "\<not> (n = 0 \<or> length rows \<le> idx)" using "1.prems" False by simp
    show ?thesis
    proof (cases "idx + n \<le> length rows")
      case True
      have d: "(length rows - idx) div n = Suc ((length rows - (idx + n)) div n)"
        using True "1.prems" by (simp add: le_div_geq)
      have "concat (group_loop n idx rows)
          = take n (drop idx rows)
            @ take (n * ((length rows - (idx + n)) div n)) (drop (idx + n) rows)"
        using "1.IH" [OF c refl "1.prems"] True "1.prems" by (simp add: group_loop_full)
      also have "\<dots> = take (n + n * ((length rows - (idx + n)) div n)) (drop idx rows)"
        by (simp add: take_add add.commute)
      finally show ?thesis unfolding d by simp
    next
      case False
      with "1.prems" i show ?thesis by (simp add: group_loop_short)
    qed
  qed
qed

subsection \<open>The block extractor\<close>

lemma full_blocks_positive:
  assumes "0 < n"
  shows "full_blocks n rows = Inr (group_loop (nat n) 0 rows)"
  using assms by (simp add: full_blocks_def)

lemma group_loop_hd: "g \<in> set (group_loop n idx rows) \<Longrightarrow> 0 < n \<Longrightarrow> hd g = g ! 0"
proof -
  assume "g \<in> set (group_loop n idx rows)" and "0 < n"
  then have "g \<noteq> []" using group_loop_lengths [of g n idx rows] by auto
  then show ?thesis by (simp add: hd_conv_nth)
qed

text \<open>
  Claim C2, as amended. The block extractor keeps every sample whose relevant-channel
  sourced voltage is within tolerance of the target, whether or not the kept samples are
  adjacent in the stream, cuts the kept samples into consecutive groups of \<open>block_size\<close>
  and emits one block (mean current for reads, first sample's time for spikes) for each
  full group; only the samples left over at the end, fewer than \<open>block_size\<close>, are
  dropped. So every emitted block has exactly \<open>block_size\<close> samples, the number of blocks
  is the number of matching samples divided by \<open>block_size\<close>, and the samples consumed
  are the first \<open>block_size * number of blocks\<close> matching samples.
\<close>

theorem block_extractor_filter_then_chunk:
  assumes "0 < read_num s" and "0 < spike_num s"
  shows "\<exists>rg pg qg.
           read_groups s data = Inr rg
         \<and> spike_pre_groups s data = Inr pg
         \<and> spike_post_groups s data = Inr qg
         \<and> (\<forall>g \<in> set rg. length g = nat (read_num s))
         \<and> (\<forall>g \<in> set pg. length g = nat (spike_num s))
         \<and> (\<forall>g \<in> set qg. length g = nat (spike_num s))
         \<and> length rg = length (filter (read_mask s) data) div nat (read_num s)
         \<and> length pg = length (filter (spike_pre_mask s) data) div nat (spike_num s)
         \<and> length qg = length (filter (spike_post_mask s) data) div nat (spike_num s)
         \<and> concat rg = take (nat (read_num s) * length rg) (filter (read_mask s) data)
         \<and> concat pg = take (nat (spike_num s) * length pg) (filter (spike_pre_mask s) data)
         \<and> concat qg = take (nat (spike_num s) * length qg) (filter (spike_post_mask s) data)
         \<and> read_currents s data = Inr (map (\<lambda>g. mean (map (preI s) g)) rg)
         \<and> spike_pre_times s data = Inr (map (\<lambda>g. Time_s (g ! 0)) pg)
         \<and> spike_post_times s data = Inr (map (\<lambda>g. Time_s (g ! 0)) qg)"
proof -
  let ?r = "nat (read_num s)" and ?k = "nat (spike_num s)"
  have r: "0 < ?r" and k: "0 < ?k" using assms by simp_all
  let ?rg = "group_loop ?r 0 (filter (read_mask s) data)"
  let ?pg = "group_loop ?k 0 (filter (spike_pre_mask s) data)"
  let ?qg = "group_loop ?k 0 (filter (spike_post_mask s) data)"
  have g1: "read_groups s data = Inr ?rg"
    using assms by (simp add: read_groups_def full_blocks_positive)
  have g2: "spike_pre_groups s data = Inr ?pg"
    using assms by (simp add: spike_pre_groups_def full_blocks_positive)
  have g3: "spike_post_groups s data = Inr ?qg"
    using assms by (simp add: spike_post_groups_def full_blocks_positive)
  have l1: "\<forall>g \<in> set ?rg. length g = ?r" using group_loop_lengths by blast
  have l2: "\<forall>g \<in> set ?pg. length g = ?k" using group_loop_lengths by blast
  have l3: "\<forall>g \<in> set ?qg. length g = ?k" using group_loop_lengths by blast
  have n1: "length ?rg = length (filter (read_mask s) data) div ?r"
    using group_loop_count [OF r, of 0] by simp
  have n2: "length ?pg = length (filter (spike_pre_mask s) data) div ?k"
    using group_loop_count [OF k, of 0] by simp
  have n3: "length ?qg = length (filter (spike_post_mask s) data) div ?k"
    using group_loop_count [OF k, of 0] by simp
  have c1: "concat ?rg = take (?r * length ?rg) (filter (read_mask s) data)"
    unfolding n1 using group_loop_concat [OF r, of 0] by simp
  have c2: "concat ?pg = take (?k * length ?pg) (filter (spike_pre_mask s) data)"
    unfolding n2 using group_loop_concat [OF k, of 0] by simp
  have c3: "concat ?qg = take (?k * length ?qg) (filter (spike_post_mask s) data)"
    unfolding n3 using group_loop_concat [OF k, of 0] by simp
  have m1: "read_currents s data = Inr (map (\<lambda>g. mean (map (preI s) g)) ?rg)"
    by (simp add: read_currents_def g1)
  have hd2: "map (\<lambda>g. Time_s (hd g)) ?pg = map (\<lambda>g. Time_s (g ! 0)) ?pg"
  proof (rule map_cong [OF refl])
    fix g assume "g \<in> set ?pg"
    from group_loop_hd [OF this k] show "Time_s (hd g) = Time_s (g ! 0)" by simp
  qed
  have hd3: "map (\<lambda>g. Time_s (hd g)) ?qg = map (\<lambda>g. Time_s (g ! 0)) ?qg"
  proof (rule map_cong [OF refl])
    fix g assume "g \<in> set ?qg"
    from group_loop_hd [OF this k] show "Time_s (hd g) = Time_s (g ! 0)" by simp
  qed
  have m2: "spike_pre_times s data = Inr (map (\<lambda>g. Time_s (g ! 0)) ?pg)"
    by (simp add: spike_pre_times_def g2 hd2)
  have m3: "spike_post_times s data = Inr (map (\<lambda>g. Time_s (g ! 0)) ?qg)"
    by (simp add: spike_post_times_def g3 hd3)
  show ?thesis
    apply (rule exI [of _ ?rg], rule exI [of _ ?pg], rule exI [of _ ?qg])
    using g1 g2 g3 l1 l2 l3 n1 n2 n3 c1 c2 c3 m1 m2 m3 by (intro conjI)
qed

text \<open>
  With blocks of two samples, two single reads separated by a spike form one emitted
  block, although neither run of matching samples reaches two samples: the scan the
  claim describes emits nothing there.
\<close>

theorem block_extractor_counterexample:
  "read_groups tester2 data_split_reads = Inr [[row_a, row_c]]
   \<and> read_currents tester2 data_split_reads = Inr [2]
   \<and> spec_run_blocks 2 (read_mask tester2) [] data_split_reads = []"
  by (simp add: read_currents_def read_groups_def full_blocks_def tester2_def default_tester_def
      data_split_reads_def row_a_def row_b_def row_c_def read_mask_def isclose_def preV_def
      preI_def group_loop.simps mean_def Let_def)

theorem block_extractor_witness:
  "0 < read_num tester2 \<and> 0 < spike_num tester2
   \<and> read_groups tester2 data_split_reads = Inr [[row_a, row_c]]
   \<and> length [[row_a, row_c]] = length (filter (read_mask tester2) data_split_reads) div nat (read_num tester2)
   \<and> read_currents tester2 data_split_reads = Inr [2]"
proof -
  have h: "0 < read_num tester2" "0 < spike_num tester2"
    by (simp_all add: tester2_def default_tester_def)
  obtain rg where g: "read_groups tester2 data_split_reads = Inr rg"
    and n: "length rg = length (filter (read_mask tester2) data_split_reads) div nat (read_num tester2)"
    and c: "concat rg = take (nat (read_num tester2) * length rg) (filter (read_mask tester2) data_split_reads)"
    and l: "\<forall>g \<in> set rg. length g = nat (read_num tester2)"
    and m: "read_currents tester2 data_split_reads = Inr (map (\<lambda>g. mean (map (preI tester2) g)) rg)"
    using block_extractor_filter_then_chunk [OF h, of data_split_reads] by blast
  have f: "filter (read_mask tester2) data_split_reads = [row_a, row_c]"
    by (simp add: tester2_def default_tester_def data_split_reads_def row_a_def row_b_def
        row_c_def read_mask_def isclose_def preV_def)
  have r2: "nat (read_num tester2) = 2" by (simp add: tester2_def default_tester_def)
  from n f r2 have "length rg = 1" by simp
  then obtain g0 where rg: "rg = [g0]" by (cases rg) auto
  from c rg f r2 have "g0 = [row_a, row_c]" by simp
  with rg have rg': "rg = [[row_a, row_c]]" by simp
  have "read_currents tester2 data_split_reads = Inr [2]"
    unfolding m rg' by (simp add: mean_def preI_def tester2_def default_tester_def row_a_def row_c_def)
  then show ?thesis using h g n rg' by simp
qed

subsection \<open>The delta series\<close>

lemma length_delta_g_list: "length (delta_g_list rc) = length rc - 1"
  by (simp add: delta_g_list_def)

lemma nth_delta_g_list:
  "i < length rc - 1 \<Longrightarrow>
   delta_g_list rc ! i =
     (if \<bar>rc ! i\<bar> < 1 / 10 ^ 20 then NaN else Fin ((rc ! (i + 1) - rc ! i) / rc ! i))"
  by (simp add: delta_g_list_def Let_def)

lemma length_delta_t_list:
  "length (delta_t_list pbp pre post) = min (length pre) (length post)"
  by (simp add: delta_t_list_def)

lemma nth_delta_t_list:
  "i < min (length pre) (length post) \<Longrightarrow>
   delta_t_list pbp pre post ! i = (if pbp then post ! i - pre ! i else pre ! i - post ! i)"
  by (simp add: delta_t_list_def Let_def)

lemma process_result_shape:
  assumes "read_currents s data = Inr rc"
    and "stdp_process_measurement_data s data = Inr (msgs, dt, dg)"
  shows "dg = take (length dg) (delta_g_list rc) \<and> length dt = length dg
         \<and> length dg \<le> length rc - 1"
proof -
  obtain pre_times where pre: "spike_pre_times s data = Inr pre_times"
    using assms by (cases "spike_pre_times s data")
      (simp_all add: stdp_process_measurement_data_def)
  obtain post_times where post: "spike_post_times s data = Inr post_times"
    using assms pre by (cases "spike_post_times s data")
      (simp_all add: stdp_process_measurement_data_def)
  let ?dg = "delta_g_list rc"
  let ?dt = "delta_t_list (pre_before_post s) pre_times post_times"
  let ?n = "min (length ?dg) (length ?dt)"
  show ?thesis
  proof (cases "?n = 0")
    case True
    then have "stdp_process_measurement_data s data
        = Inr ([''[Warning] no valid read/spike pairs found.''], [], [])"
      by (simp add: stdp_process_measurement_data_def assms(1) pre post Let_def)
    with assms(2) show ?thesis by simp
  next
    case False
    then have "stdp_process_measurement_data s data = Inr ([], take ?n ?dt, take ?n ?dg)"
      by (simp add: stdp_process_measurement_data_def assms(1) pre post Let_def)
    with assms(2) have dt: "dt = take ?n ?dt" and dg: "dg = take ?n ?dg" by simp_all
    have l: "length dg = ?n" unfolding dg by simp
    have l2: "length dt = ?n" unfolding dt by simp
    have "dg = take (length dg) ?dg" unfolding l by (rule dg)
    moreover have "length dg \<le> length rc - 1" unfolding l by (simp add: length_delta_g_list)
    ultimately show ?thesis using l l2 by simp
  qed
qed

text \<open>
  Claim C1, as amended. For every list of read-block mean currents \<open>I[0..k-1]\<close>, the
  delta-g series has \<open>k - 1\<close> entries; entry \<open>i\<close> is \<open>(I[i+1] - I[i]) / I[i]\<close> when
  \<open>|I[i]| \<ge> 1e-20\<close> and the NaN value when \<open>|I[i]| < 1e-20\<close>. A NaN entry keeps its
  position in the series: the array returned by the data processing holds it at that
  position, and it is written to the export like every other entry.
\<close>

theorem delta_g_nan_kept:
  "length (delta_g_list rc) = length rc - 1
   \<and> (\<forall>i < length rc - 1.
         delta_g_list rc ! i =
           (if \<bar>rc ! i\<bar> < 1 / 10 ^ 20 then NaN
            else Fin ((rc ! (i + 1) - rc ! i) / rc ! i)))
   \<and> (read_currents s data = Inr rc
        \<and> stdp_process_measurement_data s data = Inr (msgs, dt, dg)
       \<longrightarrow> length dt = length dg
         \<and> (\<forall>i < length dg.
               dg ! i = (if \<bar>rc ! i\<bar> < 1 / 10 ^ 20 then NaN
                         else Fin ((rc ! (i + 1) - rc ! i) / rc ! i))
             \<and> save_delta_csv_rows dt dg ! i = (dt ! i, dg ! i)))"
proof (intro conjI impI)
  show "length (delta_g_list rc) = length rc - 1" by (rule length_delta_g_list)
  show "\<forall>i < length rc - 1.
         delta_g_list rc ! i =
           (if \<bar>rc ! i\<bar> < 1 / 10 ^ 20 then NaN
            else Fin ((rc ! (i + 1) - rc ! i) / rc ! i))"
    by (simp add: nth_delta_g_list)
next
  assume a: "read_currents s data = Inr rc
        \<and> stdp_process_measurement_data s data = Inr (msgs, dt, dg)"
  then have t: "dg = take (length dg) (delta_g_list rc)" and e: "length dt = length dg"
    and b: "length dg \<le> length rc - 1"
    using process_result_shape [of s data rc msgs dt dg] by simp_all
  show "length dt = length dg" by (rule e)
  show "\<forall>i < length dg.
          dg ! i = (if \<bar>rc ! i\<bar> < 1 / 10 ^ 20 then NaN
                    else Fin ((rc ! (i + 1) - rc ! i) / rc ! i))
        \<and> save_delta_csv_rows dt dg ! i = (dt ! i, dg ! i)"
  proof (intro allI impI conjI)
    fix i assume i: "i < length dg"
    then have "dg ! i = delta_g_list rc ! i" by (subst t) simp
    moreover have "i < length rc - 1" using i b by simp
    ultimately show "dg ! i = (if \<bar>rc ! i\<bar> < 1 / 10 ^ 20 then NaN
                    else Fin ((rc ! (i + 1) - rc ! i) / rc ! i))"
      by (simp add: nth_delta_g_list)
    show "save_delta_csv_rows dt dg ! i = (dt ! i, dg ! i)"
      using i e by (simp add: save_delta_csv_rows_def)
  qed
qed

theorem delta_g_nan_kept_witness:
  "(0::nat) < length [0, 1, 3 :: real] - 1
   \<and> delta_g_list [0, 1, 3] ! 0 = NaN
   \<and> (1::nat) < length [0, 1, 3 :: real] - 1
   \<and> delta_g_list [0, 1, 3] ! 1 = Fin 2
   \<and> read_currents tester1 data_zero_read = Inr [0, 2]
   \<and> stdp_process_measurement_data tester1 data_zero_read = Inr ([], [1], [NaN])
   \<and> (0::nat) < length [NaN]
   \<and> save_delta_csv_rows [1] [NaN] ! 0 = (1, NaN)"
proof -
  have r: "read_currents tester1 data_zero_read = Inr [0, 2]"
    by (simp add: read_currents_def read_groups_def full_blocks_def read_mask_def
      tester1_def default_tester_def data_zero_read_def isclose_def preV_def preI_def
      group_loop.simps mean_def Let_def)
  have p: "stdp_process_measurement_data tester1 data_zero_read = Inr ([], [1], [NaN])"
    by (simp add: stdp_process_measurement_data_def read_currents_def read_groups_def
      full_blocks_def spike_pre_times_def spike_post_times_def spike_pre_groups_def
      spike_post_groups_def read_mask_def spike_pre_mask_def spike_post_mask_def
      tester1_def default_tester_def data_zero_read_def isclose_def preV_def postV_def preI_def
      group_loop.simps delta_g_list_def delta_t_list_def mean_def Let_def)
  have a: "delta_g_list [0, 1, 3] ! 0 = NaN \<and> delta_g_list [0, 1, 3] ! 1 = Fin 2"
    using delta_g_nan_kept [of "[0, 1, 3]" tester1 data_zero_read "[]" "[1]" "[NaN]"] by simp
  have b: "save_delta_csv_rows [1] [NaN] ! 0 = (1, NaN)"
    using delta_g_nan_kept [of "[0, 2]" tester1 data_zero_read "[]" "[1]" "[NaN]"] r p by simp
  show ?thesis using r p a b by simp
qed

text \<open>
  A first read block of current 0 gives a NaN entry that is returned to the caller and
  handed to the CSV writer.
\<close>

theorem delta_g_counterexample:
  "read_currents tester1 data_zero_read = Inr [0, 2]
   \<and> stdp_process_measurement_data tester1 data_zero_read = Inr ([], [1], [NaN])
   \<and> save_delta_csv_rows [1] [NaN] = [(1, NaN)]"
  by (simp add: stdp_process_measurement_data_def read_currents_def read_groups_def
      full_blocks_def spike_pre_times_def spike_post_times_def spike_pre_groups_def
      spike_post_groups_def read_mask_def spike_pre_mask_def spike_post_mask_def
      tester1_def default_tester_def data_zero_read_def isclose_def preV_def postV_def preI_def
      group_loop.simps delta_g_list_def delta_t_list_def mean_def Let_def
      save_delta_csv_rows_def)

text \<open>
  Claim C4, as amended. The delta-t series has one entry for each index below the smaller
  of the two spike-block counts. With \<open>pre_before_post\<close> set,
  \<open>\<Delta>t[i] = postTime[i] - preTime[i]\<close>; with it cleared,
  \<open>\<Delta>t[i] = preTime[i] - postTime[i]\<close>, where \<open>preTime\<close> and \<open>postTime\<close> are the
  spike-block times of the columns that play the pre and post roles under that setting.
  For the same pair of spike-time lists, flipping \<open>pre_before_post\<close> and negating the
  resulting series reproduces the original series.
\<close>

theorem delta_t_sign:
  "length (delta_t_list pbp pre post) = min (length pre) (length post)
   \<and> (\<forall>i < min (length pre) (length post).
         delta_t_list pbp pre post ! i
           = (if pbp then post ! i - pre ! i else pre ! i - post ! i))
   \<and> map uminus (delta_t_list (\<not> pbp) pre post) = delta_t_list pbp pre post"
proof -
  have "map uminus (delta_t_list (\<not> pbp) pre post) = delta_t_list pbp pre post"
    by (rule nth_equalityI) (simp_all add: length_delta_t_list nth_delta_t_list)
  then show ?thesis by (simp add: length_delta_t_list nth_delta_t_list)
qed

theorem delta_t_sign_witness:
  "(0::nat) < min (length [1, 4 :: real]) (length [3, 5 :: real])
   \<and> delta_t_list True [1, 4] [3, 5] ! 0 = 2
   \<and> delta_t_list False [1, 4] [3, 5] ! 0 = - 2
   \<and> map uminus (delta_t_list False [1, 4] [3, 5]) = delta_t_list True [1, 4] [3, 5]"
  using delta_t_sign [of True "[1, 4]" "[3, 5]"] delta_t_sign [of False "[1, 4]" "[3, 5]"]
  by simp

text \<open>
  With the roles reversed the post-role spike (channel A) is at time 1 and the pre-role
  spike (channel B) at time 2, and the reported \<open>\<Delta>t\<close> is 1, not \<open>1 - 2\<close>; on this
  fixed data set both settings of \<open>pre_before_post\<close> report the same \<open>\<Delta>t\<close>.
\<close>

theorem delta_t_counterexample:
  "spike_pre_times tester1_reversed data_both_read = Inr [2]
   \<and> spike_post_times tester1_reversed data_both_read = Inr [1]
   \<and> stdp_process_measurement_data tester1_reversed data_both_read = Inr ([], [1], [Fin 3])
   \<and> stdp_process_measurement_data tester1 data_both_read = Inr ([], [1], [Fin 1])"
  by (simp add: stdp_process_measurement_data_def read_currents_def read_groups_def
      full_blocks_def spike_pre_times_def spike_post_times_def spike_pre_groups_def
      spike_post_groups_def read_mask_def spike_pre_mask_def spike_post_mask_def
      tester1_reversed_def tester1_def default_tester_def data_both_read_def isclose_def
      preV_def postV_def preI_def group_loop.simps delta_g_list_def delta_t_list_def mean_def
      Let_def)

text \<open>
  On one and the same data set the flag also swaps the columns the two spike-time lists
  are read from, and the two changes cancel: the series is the same for both settings.
\<close>

lemma spike_times_swap:
  "spike_pre_times (s\<lparr>pre_before_post := \<not> pre_before_post s\<rparr>) data = spike_post_times s data"
  "spike_post_times (s\<lparr>pre_before_post := \<not> pre_before_post s\<rparr>) data = spike_pre_times s data"
proof -
  have a: "spike_pre_mask (s\<lparr>pre_before_post := \<not> pre_before_post s\<rparr>) = spike_post_mask s"
    by (rule ext) (simp add: spike_pre_mask_def spike_post_mask_def preV_def postV_def)
  have b: "spike_post_mask (s\<lparr>pre_before_post := \<not> pre_before_post s\<rparr>) = spike_pre_mask s"
    by (rule ext) (simp add: spike_pre_mask_def spike_post_mask_def preV_def postV_def)
  show "spike_pre_times (s\<lparr>pre_before_post := \<not> pre_before_post s\<rparr>) data
          = spike_post_times s data"
    by (simp add: spike_pre_times_def spike_post_times_def spike_pre_groups_def
        spike_post_groups_def a)
  show "spike_post_times (s\<lparr>pre_before_post := \<not> pre_before_post s\<rparr>) data
          = spike_pre_times s data"
    by (simp add: spike_pre_times_def spike_post_times_def spike_pre_groups_def
        spike_post_groups_def b)
qed

lemma delta_t_same_data: "delta_t_list (\<not> pbp) post pre = delta_t_list pbp pre post"
  by (rule nth_equalityI) (simp_all add: length_delta_t_list nth_delta_t_list min.commute)

subsection \<open>The result of process\_measurement\_data\<close>

lemma full_blocks_nonzero: "n \<noteq> 0 \<Longrightarrow> \<exists>gs. full_blocks n rows = Inr gs"
  by (simp add: full_blocks_def)

lemma read_currents_nonzero: "read_num s \<noteq> 0 \<Longrightarrow> \<exists>rc. read_currents s data = Inr rc"
  using full_blocks_nonzero [of "read_num s" "filter (read_mask s) data"]
  by (auto simp: read_currents_def read_groups_def)

lemma spike_pre_times_nonzero: "spike_num s \<noteq> 0 \<Longrightarrow> \<exists>ts. spike_pre_times s data = Inr ts"
  using full_blocks_nonzero [of "spike_num s" "filter (spike_pre_mask s) data"]
  by (auto simp: spike_pre_times_def spike_pre_groups_def)

lemma spike_post_times_nonzero: "spike_num s \<noteq> 0 \<Longrightarrow> \<exists>ts. spike_post_times s data = Inr ts"
  using full_blocks_nonzero [of "spike_num s" "filter (spike_post_mask s) data"]
  by (auto simp: spike_post_times_def spike_post_groups_def)

text \<open>
  Claim C9. For every input data set (block sizes non-zero, so that the grouping loops
  run), the delta computation returns \<open>\<Delta>t\<close> and \<open>\<Delta>g\<close> arrays of equal length, both
  series cut to the smaller of their two lengths; when there is no valid pair it returns
  two empty arrays and prints a diagnostic message instead of raising.
\<close>

theorem deltas_equal_length:
  assumes "read_num s \<noteq> 0" and "spike_num s \<noteq> 0"
  shows "\<exists>rc pre_times post_times msgs dt dg.
           read_currents s data = Inr rc
         \<and> spike_pre_times s data = Inr pre_times
         \<and> spike_post_times s data = Inr post_times
         \<and> stdp_process_measurement_data s data = Inr (msgs, dt, dg)
         \<and> length dt = length dg
         \<and> length dt = min (length (delta_g_list rc))
                          (length (delta_t_list (pre_before_post s) pre_times post_times))
         \<and> dt = take (length dt) (delta_t_list (pre_before_post s) pre_times post_times)
         \<and> dg = take (length dt) (delta_g_list rc)
         \<and> (length dt = 0 \<longrightarrow>
               dt = [] \<and> dg = [] \<and> msgs = [''[Warning] no valid read/spike pairs found.''])
         \<and> (0 < length dt \<longrightarrow> msgs = [])"
proof -
  obtain rc where rc: "read_currents s data = Inr rc"
    using read_currents_nonzero [OF assms(1)] by blast
  obtain pre_times where pre: "spike_pre_times s data = Inr pre_times"
    using spike_pre_times_nonzero [OF assms(2)] by blast
  obtain post_times where post: "spike_post_times s data = Inr post_times"
    using spike_post_times_nonzero [OF assms(2)] by blast
  let ?dg = "delta_g_list rc"
  let ?dt = "delta_t_list (pre_before_post s) pre_times post_times"
  let ?n = "min (length ?dg) (length ?dt)"
  show ?thesis
  proof (cases "?n = 0")
    case True
    then have "stdp_process_measurement_data s data
        = Inr ([''[Warning] no valid read/spike pairs found.''], [], [])"
      by (simp add: stdp_process_measurement_data_def rc pre post Let_def)
    with rc pre post True show ?thesis by simp
  next
    case False
    then have p: "stdp_process_measurement_data s data = Inr ([], take ?n ?dt, take ?n ?dg)"
      by (simp add: stdp_process_measurement_data_def rc pre post Let_def)
    have l: "length (take ?n ?dt) = ?n" by simp
    show ?thesis
      apply (rule exI [of _ rc], rule exI [of _ pre_times], rule exI [of _ post_times])
      apply (rule exI [of _ "[]"], rule exI [of _ "take ?n ?dt"], rule exI [of _ "take ?n ?dg"])
      using rc pre post p False unfolding l by simp
  qed
qed

theorem deltas_equal_length_witness:
  "read_num tester1 \<noteq> 0 \<and> spike_num tester1 \<noteq> 0
   \<and> stdp_process_measurement_data tester1 data_both_read = Inr ([], [1], [Fin 1])
   \<and> length [1 :: real] = length [Fin 1]
   \<and> stdp_process_measurement_data tester1 []
        = Inr ([''[Warning] no valid read/spike pairs found.''], [], [])"
proof -
  have h: "read_num tester1 \<noteq> 0" "spike_num tester1 \<noteq> 0"
    by (simp_all add: tester1_def default_tester_def)
  have rc0: "read_currents tester1 [] = Inr []"
    by (simp add: read_currents_def read_groups_def full_blocks_def tester1_def
        default_tester_def group_loop.simps)
  obtain rc pre_times post_times msgs dt dg where rc: "read_currents tester1 [] = Inr rc"
    and p: "stdp_process_measurement_data tester1 [] = Inr (msgs, dt, dg)"
    and n: "length dt = min (length (delta_g_list rc))
              (length (delta_t_list (pre_before_post tester1) pre_times post_times))"
    and z: "length dt = 0 \<longrightarrow>
              dt = [] \<and> dg = [] \<and> msgs = [''[Warning] no valid read/spike pairs found.'']"
    using deltas_equal_length [OF h, of "[]"] by blast
  from rc rc0 have "rc = []" by simp
  with n have "length dt = 0" by (simp add: delta_g_list_def)
  with z p have e: "stdp_process_measurement_data tester1 []
        = Inr ([''[Warning] no valid read/spike pairs found.''], [], [])" by simp
  have b: "stdp_process_measurement_data tester1 data_both_read = Inr ([], [1], [Fin 1])"
    by (simp add: stdp_process_measurement_data_def read_currents_def read_groups_def
      full_blocks_def spike_pre_times_def spike_post_times_def spike_pre_groups_def
      spike_post_groups_def read_mask_def spike_pre_mask_def spike_post_mask_def
      tester1_def default_tester_def data_both_read_def isclose_def
      preV_def postV_def preI_def group_loop.simps delta_g_list_def delta_t_list_def mean_def
      Let_def)
  show ?thesis using h e b by simp
qed

subsection \<open>The voltage sequences\<close>

lemma generate_loop_concat:
  "generate_loop s ts (pre_seq, post_seq) =
     (pre_seq @ concat (map (pre_steps s) ts), post_seq @ concat (map (post_steps s) ts))"
  by (induction ts arbitrary: pre_seq post_seq) simp_all

lemma generate_voltage_sequences_concat:
  "generate_voltage_sequences s =
     (concat (map (pre_steps s) (time_num s)), concat (map (post_steps s) (time_num s)))"
  by (simp add: generate_voltage_sequences_def generate_loop_concat)

lemma length_steps_eq:
  assumes "0 \<le> read_num s" and "0 \<le> spike_num s" and "0 \<le> active_num s"
  shows "length (pre_steps s t) = length (post_steps s t)"
  using assms by (simp add: pre_steps_def post_steps_def py_rep_def nat_add_distrib)

lemma length_concat_steps_eq:
  assumes "0 \<le> read_num s" and "0 \<le> spike_num s" and "0 \<le> active_num s"
  shows "length (concat (map (pre_steps s) ts)) = length (concat (map (post_steps s) ts))"
  by (induction ts) (simp_all add: length_steps_eq [OF assms])

lemma take_drop_append_replicate:
  "length xs = k \<Longrightarrow> take n (drop k (xs @ replicate n v @ ys)) = replicate n v"
  by simp

text \<open>
  Claim C5, as amended. For every timing value \<open>t\<close> and non-negative segment counts, the
  generator appends pre-channel and post-channel step lists of equal length for that
  iteration, so the two whole sequences stay index-aligned. The pre-channel spike segment
  starts at step \<open>read_num\<close>; the post-channel spike segment starts
  \<open>spike_num + active_num + int(t)\<close> steps later: after the pre spike ends, the post
  channel holds \<open>active_num\<close> active steps and then exactly \<open>int(t)\<close> hold steps before
  its spike.
\<close>

theorem spike_segments_offset:
  assumes "0 \<le> read_num s" and "0 \<le> spike_num s" and "0 \<le> active_num s"
  shows "length (pre_steps s t) = length (post_steps s t)
       \<and> length (fst (generate_voltage_sequences s)) = length (snd (generate_voltage_sequences s))
       \<and> take (nat (spike_num s)) (drop (nat (read_num s)) (pre_steps s t))
           = replicate (nat (spike_num s)) (V_spike s)
       \<and> take (nat (active_num s)) (drop (nat (read_num s) + nat (spike_num s)) (post_steps s t))
           = replicate (nat (active_num s)) (V_active s)
       \<and> take (nat (py_int t))
            (drop (nat (read_num s) + nat (spike_num s) + nat (active_num s)) (post_steps s t))
           = replicate (nat (py_int t)) (V_time s)
       \<and> take (nat (spike_num s))
            (drop (nat (read_num s) + (nat (spike_num s) + nat (active_num s) + nat (py_int t)))
               (post_steps s t))
           = replicate (nat (spike_num s)) (V_spike s)"
proof -
  let ?R = "nat (read_num s)" and ?S = "nat (spike_num s)" and ?A = "nat (active_num s)"
  let ?T = "nat (py_int t)"
  have rs: "nat (read_num s + spike_num s) = ?R + ?S" using assms by (simp add: nat_add_distrib)
  have a: "length (pre_steps s t) = length (post_steps s t)"
    by (rule length_steps_eq [OF assms])
  have b: "length (fst (generate_voltage_sequences s)) = length (snd (generate_voltage_sequences s))"
    by (simp add: generate_voltage_sequences_concat length_concat_steps_eq [OF assms])
  have c: "take ?S (drop ?R (pre_steps s t)) = replicate ?S (V_spike s)"
    by (simp add: pre_steps_def py_rep_def)
  have d: "take ?A (drop (?R + ?S) (post_steps s t)) = replicate ?A (V_active s)"
    by (simp add: post_steps_def py_rep_def rs)
  have e: "take ?T (drop (?R + ?S + ?A) (post_steps s t)) = replicate ?T (V_time s)"
    by (simp add: post_steps_def py_rep_def rs)
  have f: "take ?S (drop (?R + (?S + ?A + ?T)) (post_steps s t)) = replicate ?S (V_spike s)"
    by (simp add: post_steps_def py_rep_def rs)
  show ?thesis using a b c d e f by simp
qed

text \<open>
  With the default parameters and \<open>t = 0\<close> the pre spike occupies steps 5 to 9 and the
  post spike steps 11 to 15: six steps apart, not zero. With \<open>t = 5\<close> they are eleven
  steps apart.
\<close>

theorem spike_segments_counterexample:
  "positions (V_spike default_tester) (pre_steps default_tester 0) = [5, 6, 7, 8, 9]
   \<and> positions (V_spike default_tester) (post_steps default_tester 0) = [11, 12, 13, 14, 15]
   \<and> positions (V_spike default_tester) (pre_steps default_tester 5) = [5, 6, 7, 8, 9]
   \<and> positions (V_spike default_tester) (post_steps default_tester 5) = [16, 17, 18, 19, 20]"
  by code_simp

theorem spike_segments_offset_witness:
  "0 \<le> read_num default_tester \<and> 0 \<le> spike_num default_tester
   \<and> 0 \<le> active_num default_tester
   \<and> length (pre_steps default_tester 5) = length (post_steps default_tester 5)
   \<and> take 5 (drop 5 (pre_steps default_tester 5)) = replicate 5 (1 / 2)
   \<and> take 5 (drop (5 + (5 + 1 + 5)) (post_steps default_tester 5)) = replicate 5 (1 / 2)"
proof -
  have h: "0 \<le> read_num default_tester" "0 \<le> spike_num default_tester"
    "0 \<le> active_num default_tester"
    by (simp_all add: default_tester_def)
  have v: "nat (read_num default_tester) = 5" "nat (spike_num default_tester) = 5"
    "nat (active_num default_tester) = 1" "nat (py_int 5) = 5" "V_spike default_tester = 1 / 2"
    by (simp_all add: default_tester_def py_int_def)
  show ?thesis using h spike_segments_offset [OF h, of 5] unfolding v by simp
qed

subsection \<open>The execution loop\<close>

lemma stdp_loop_done: "n \<le> i \<Longrightarrow> stdp_loop ins a b n i data = Inr data"
  by (subst stdp_loop.simps) simp

lemma stdp_loop_fail:
  "i < n \<Longrightarrow> step_reply ins i = None \<Longrightarrow> stdp_loop ins a b n i data = Inl InstrumentError"
  by (subst stdp_loop.simps) simp

lemma stdp_loop_step:
  "i < n \<Longrightarrow> step_reply ins i = Some (t, ia, ib) \<Longrightarrow>
   stdp_loop ins a b n i data =
     stdp_loop ins a b n (i + 1)
       (data @ [\<lparr>Time_s = t, ChA_V = a ! i, ChB_V = b ! i, ChA_I = ia, ChB_I = ib\<rparr>])"
  by (subst stdp_loop.simps) simp

lemma stdp_loop_failure:
  "i \<le> k \<Longrightarrow> k < n \<Longrightarrow> step_reply ins k = None \<Longrightarrow>
   stdp_loop ins a b n i data = Inl InstrumentError"
proof (induction d \<equiv> "k - i" arbitrary: i data)
  case 0
  then have "i = k" by simp
  with 0 show ?case by (simp add: stdp_loop_fail)
next
  case (Suc d)
  then have i: "i < n" and ik: "i < k" by simp_all
  show ?case
  proof (cases "step_reply ins i")
    case None
    with i show ?thesis by (simp add: stdp_loop_fail)
  next
    case (Some r)
    obtain t ia ib where r: "r = (t, ia, ib)" by (cases r)
    have d: "d = k - (i + 1)" using Suc.hyps(2) by simp
    have le: "i + 1 \<le> k" using ik by simp
    have "stdp_loop ins a b n (i + 1)
            (data @ [\<lparr>Time_s = t, ChA_V = a ! i, ChB_V = b ! i, ChA_I = ia, ChB_I = ib\<rparr>])
          = Inl InstrumentError"
      by (rule Suc.hyps(1) [OF d le Suc.prems(2) Suc.prems(3)])
    moreover have "step_reply ins i = Some (t, ia, ib)" using Some r by simp
    ultimately show ?thesis using stdp_loop_step [OF i, of ins t ia ib a b data] by simp
  qed
qed

lemma stdp_loop_success:
  "\<forall>j. i \<le> j \<and> j < n \<longrightarrow> step_reply ins j \<noteq> None \<Longrightarrow>
   \<exists>rows. stdp_loop ins a b n i data = Inr (data @ rows)
        \<and> length rows = n - i
        \<and> (\<forall>j < n - i. ChA_V (rows ! j) = a ! (i + j) \<and> ChB_V (rows ! j) = b ! (i + j)
              \<and> step_reply ins (i + j)
                  = Some (Time_s (rows ! j), ChA_I (rows ! j), ChB_I (rows ! j)))"
proof (induction d \<equiv> "n - i" arbitrary: i data)
  case 0
  then have "n \<le> i" by simp
  then have "stdp_loop ins a b n i data = Inr (data @ [])" by (simp add: stdp_loop_done)
  moreover have "n - i = 0" using \<open>n \<le> i\<close> by simp
  ultimately show ?case by (intro exI [of _ "[]"]) simp
next
  case (Suc d)
  then have i: "i < n" by simp
  have "step_reply ins i \<noteq> None" using Suc.prems i by simp
  then obtain r where "step_reply ins i = Some r" by blast
  then obtain t ia ib where r: "step_reply ins i = Some (t, ia, ib)" by (cases r) simp
  let ?row = "\<lparr>Time_s = t, ChA_V = a ! i, ChB_V = b ! i, ChA_I = ia, ChB_I = ib\<rparr>"
  have d: "d = n - (i + 1)" using Suc.hyps(2) by simp
  have ok: "\<forall>j. i + 1 \<le> j \<and> j < n \<longrightarrow> step_reply ins j \<noteq> None" using Suc.prems by simp
  from Suc.hyps(1) [OF d ok, of "data @ [?row]"]
  obtain rows where s: "stdp_loop ins a b n (i + 1) (data @ [?row]) = Inr ((data @ [?row]) @ rows)"
    and l: "length rows = n - (i + 1)"
    and p: "\<forall>j < n - (i + 1). ChA_V (rows ! j) = a ! (i + 1 + j)
              \<and> ChB_V (rows ! j) = b ! (i + 1 + j)
              \<and> step_reply ins (i + 1 + j)
                  = Some (Time_s (rows ! j), ChA_I (rows ! j), ChB_I (rows ! j))"
    by blast
  have e: "stdp_loop ins a b n i data = Inr (data @ (?row # rows))"
    using stdp_loop_step [OF i r, of a b data] s by simp
  have l': "length (?row # rows) = n - i" using l i by simp
  have p': "\<forall>j < n - i. ChA_V ((?row # rows) ! j) = a ! (i + j)
              \<and> ChB_V ((?row # rows) ! j) = b ! (i + j)
              \<and> step_reply ins (i + j)
                  = Some (Time_s ((?row # rows) ! j), ChA_I ((?row # rows) ! j),
                          ChB_I ((?row # rows) ! j))"
  proof (intro allI impI)
    fix j assume j: "j < n - i"
    show "ChA_V ((?row # rows) ! j) = a ! (i + j)
              \<and> ChB_V ((?row # rows) ! j) = b ! (i + j)
              \<and> step_reply ins (i + j)
                  = Some (Time_s ((?row # rows) ! j), ChA_I ((?row # rows) ! j),
                          ChB_I ((?row # rows) ! j))"
    proof (cases j)
      case 0
      then show ?thesis using r by simp
    next
      case (Suc j')
      then have "j' < n - (i + 1)" using j by simp
      with p Suc show ?thesis by simp
    qed
  qed
  show ?case using e l' p' by blast
qed

subsection \<open>run\_stdp\_test\<close>

lemma length_rebase: "length (rebase data) = length data"
  by (cases data) (simp_all add: rebase_def)

lemma nth_rebase:
  "j < length data \<Longrightarrow>
   rebase data ! j = (data ! j)\<lparr>Time_s := Time_s (data ! j) - Time_s (data ! 0)\<rparr>"
  by (cases data) (simp_all add: rebase_def del: list.map)

lemma run_stdp_test_success:
  assumes "setup_ok ins" and "shutdown_ok ins"
    and "\<forall>j < min (length a) (length b). step_reply ins j \<noteq> None"
    and "a = (if pre_before_post s then pre else post)"
    and "b = (if pre_before_post s then post else pre)"
  shows "\<exists>rows. run_stdp_test s ins pre post = Inr (rebase rows)
           \<and> length rows = min (length a) (length b)
           \<and> (\<forall>j < min (length a) (length b).
                 ChA_V (rows ! j) = a ! j \<and> ChB_V (rows ! j) = b ! j
                 \<and> step_reply ins j = Some (Time_s (rows ! j), ChA_I (rows ! j), ChB_I (rows ! j)))"
proof -
  let ?n = "min (length a) (length b)"
  have "\<forall>j. 0 \<le> j \<and> j < ?n \<longrightarrow> step_reply ins j \<noteq> None" using assms(3) by simp
  from stdp_loop_success [OF this, of a b "[]"]
  obtain rows where l: "stdp_loop ins a b ?n 0 [] = Inr rows"
    and n: "length rows = ?n"
    and p: "\<forall>j < ?n. ChA_V (rows ! j) = a ! j \<and> ChB_V (rows ! j) = b ! j
              \<and> step_reply ins j = Some (Time_s (rows ! j), ChA_I (rows ! j), ChB_I (rows ! j))"
    by auto
  have "run_stdp_test s ins pre post = Inr (rebase rows)"
    using assms(1,2) l unfolding run_stdp_test_def Let_def assms(4) [symmetric] assms(5) [symmetric]
    by simp
  then show ?thesis using n p by blast
qed

lemma run_stdp_test_step_failure:
  assumes "k < min (length pre) (length post)" and "step_reply ins k = None"
  shows "run_stdp_test s ins pre post = Inl InstrumentError"
proof (cases "setup_ok ins")
  case False
  then show ?thesis by (simp add: run_stdp_test_def)
next
  case True
  let ?a = "if pre_before_post s then pre else post"
  let ?b = "if pre_before_post s then post else pre"
  have k: "k < min (length ?a) (length ?b)" using assms(1) by (simp add: min.commute)
  have "stdp_loop ins ?a ?b (min (length ?a) (length ?b)) 0 [] = Inl InstrumentError"
    by (rule stdp_loop_failure [OF _ k assms(2)]) simp
  then show ?thesis unfolding run_stdp_test_def Let_def using True by simp
qed

text \<open>
  Claim C8. For every pair of dual-channel step sequences of lengths \<open>m\<close> and \<open>k\<close> (equal
  or not) and an instrument that answers, the pulse executor sources and measures exactly
  \<open>min m k\<close> steps and returns exactly \<open>min m k\<close> samples; sample \<open>j\<close> carries the levels
  sourced on both channels at step \<open>j\<close> and the two currents read back at that step, so no
  step is applied on one channel only.
\<close>

theorem executor_min_steps:
  assumes "setup_ok ins" and "shutdown_ok ins"
    and "\<forall>j < min (length pre) (length post). step_reply ins j \<noteq> None"
  shows "\<exists>data. run_stdp_test s ins pre post = Inr data
           \<and> length data = min (length pre) (length post)
           \<and> (\<forall>j < min (length pre) (length post).
                 ChA_V (data ! j) = (if pre_before_post s then pre else post) ! j
               \<and> ChB_V (data ! j) = (if pre_before_post s then post else pre) ! j
               \<and> (\<exists>t. step_reply ins j = Some (t, ChA_I (data ! j), ChB_I (data ! j))))"
proof -
  let ?a = "if pre_before_post s then pre else post"
  let ?b = "if pre_before_post s then post else pre"
  have m: "min (length ?a) (length ?b) = min (length pre) (length post)"
    by (simp add: min.commute)
  have ok: "\<forall>j < min (length ?a) (length ?b). step_reply ins j \<noteq> None"
    using assms(3) unfolding m .
  from run_stdp_test_success [OF assms(1,2) ok refl refl]
  obtain rows where r: "run_stdp_test s ins pre post = Inr (rebase rows)"
    and n: "length rows = min (length pre) (length post)"
    and p: "\<forall>j < min (length pre) (length post).
              ChA_V (rows ! j) = ?a ! j \<and> ChB_V (rows ! j) = ?b ! j
              \<and> step_reply ins j = Some (Time_s (rows ! j), ChA_I (rows ! j), ChB_I (rows ! j))"
    unfolding m by blast
  have "\<forall>j < min (length pre) (length post).
          ChA_V (rebase rows ! j) = ?a ! j \<and> ChB_V (rebase rows ! j) = ?b ! j
          \<and> (\<exists>t. step_reply ins j = Some (t, ChA_I (rebase rows ! j), ChB_I (rebase rows ! j)))"
    using p n by (simp add: nth_rebase)
  then show ?thesis using r n by (simp add: length_rebase)
qed

theorem executor_min_steps_witness:
  "setup_ok steady_instrument \<and> shutdown_ok steady_instrument
   \<and> step_reply steady_instrument 0 \<noteq> None \<and> step_reply steady_instrument 1 \<noteq> None
   \<and> run_stdp_test default_tester steady_instrument [1, 2, 3] [7, 8]
       = Inr [\<lparr>Time_s = 0, ChA_V = 1, ChB_V = 7, ChA_I = 1, ChB_I = 2\<rparr>,
              \<lparr>Time_s = 1, ChA_V = 2, ChB_V = 8, ChA_I = 1, ChB_I = 2\<rparr>]
   \<and> length [\<lparr>Time_s = 0, ChA_V = 1, ChB_V = 7, ChA_I = 1, ChB_I = 2\<rparr>,
              \<lparr>Time_s = 1, ChA_V = 2, ChB_V = 8, ChA_I = 1, ChB_I = 2\<rparr>]
       = min (length [1, 2, 3 :: real]) (length [7, 8 :: real])"
proof -
  have h: "setup_ok steady_instrument" "shutdown_ok steady_instrument"
    "\<forall>j < min (length [1, 2, 3 :: real]) (length [7, 8 :: real]).
       step_reply steady_instrument j \<noteq> None"
    by (simp_all add: steady_instrument_def steady_reply_def)
  have e: "run_stdp_test default_tester steady_instrument [1, 2, 3] [7, 8]
       = Inr [\<lparr>Time_s = 0, ChA_V = 1, ChB_V = 7, ChA_I = 1, ChB_I = 2\<rparr>,
              \<lparr>Time_s = 1, ChA_V = 2, ChB_V = 8, ChA_I = 1, ChB_I = 2\<rparr>]"
    by (simp add: run_stdp_test_def default_tester_def steady_instrument_def steady_reply_def
        stdp_loop.simps rebase_def Let_def)
  show ?thesis
    using h(1,2) e executor_min_steps [OF h, of default_tester]
    by (simp add: steady_instrument_def steady_reply_def)
qed

text \<open>
  Claim C3, as amended. If an instrument communication failure occurs at any step of an
  execution run, the failure leaves the executor as an exception and no sample is
  returned: the samples collected before the failure are lost. A run without failure
  returns one sample per step, with the times rebased so that the first sample's time is
  exactly 0 and every other time is the offset from it.
\<close>

theorem executor_failure_loses_data:
  "(k < min (length pre) (length post) \<and> step_reply ins k = None
      \<longrightarrow> run_stdp_test s ins pre post = Inl InstrumentError)
   \<and> (setup_ok ins \<and> shutdown_ok ins
        \<and> (\<forall>j < min (length pre) (length post). step_reply ins j \<noteq> None)
      \<longrightarrow> (\<exists>data t0. run_stdp_test s ins pre post = Inr data
             \<and> length data = min (length pre) (length post)
             \<and> (0 < length data \<longrightarrow> Time_s (data ! 0) = 0)
             \<and> (\<forall>j < length data.
                   \<exists>iA iB. step_reply ins j = Some (Time_s (data ! j) + t0, iA, iB))))"
proof (intro conjI impI)
  assume "k < min (length pre) (length post) \<and> step_reply ins k = None"
  then show "run_stdp_test s ins pre post = Inl InstrumentError"
    using run_stdp_test_step_failure by blast
next
  assume h: "setup_ok ins \<and> shutdown_ok ins
        \<and> (\<forall>j < min (length pre) (length post). step_reply ins j \<noteq> None)"
  let ?a = "if pre_before_post s then pre else post"
  let ?b = "if pre_before_post s then post else pre"
  have m: "min (length ?a) (length ?b) = min (length pre) (length post)"
    by (simp add: min.commute)
  have ok: "\<forall>j < min (length ?a) (length ?b). step_reply ins j \<noteq> None"
    using h unfolding m by simp
  from run_stdp_test_success [OF _ _ ok refl refl] h
  obtain rows where r: "run_stdp_test s ins pre post = Inr (rebase rows)"
    and n: "length rows = min (length pre) (length post)"
    and p: "\<forall>j < min (length pre) (length post).
              step_reply ins j = Some (Time_s (rows ! j), ChA_I (rows ! j), ChB_I (rows ! j))"
    unfolding m by blast
  have z: "0 < length (rebase rows) \<longrightarrow> Time_s (rebase rows ! 0) = 0"
    by (simp add: length_rebase nth_rebase)
  have t: "\<forall>j < length (rebase rows).
            \<exists>iA iB. step_reply ins j = Some (Time_s (rebase rows ! j) + Time_s (rows ! 0), iA, iB)"
    using p n by (simp add: length_rebase nth_rebase)
  show "\<exists>data t0. run_stdp_test s ins pre post = Inr data
             \<and> length data = min (length pre) (length post)
             \<and> (0 < length data \<longrightarrow> Time_s (data ! 0) = 0)
             \<and> (\<forall>j < length data.
                   \<exists>iA iB. step_reply ins j = Some (Time_s (data ! j) + t0, iA, iB))"
    using r n z t by (intro exI [of _ "rebase rows"] exI [of _ "Time_s (rows ! 0)"])
      (simp add: length_rebase)
qed

text \<open>
  Ten planned steps on both channels and an instrument that answers steps 0, 1 and 2 and
  fails at step 3: the run ends in the error, not in three rebased samples.
\<close>

theorem executor_failure_counterexample:
  "step_reply failing_instrument 0 = Some (5, 1, 2)
   \<and> step_reply failing_instrument 1 = Some (6, 1, 2)
   \<and> step_reply failing_instrument 2 = Some (7, 1, 2)
   \<and> step_reply failing_instrument 3 = None
   \<and> length (py_rep (1 / 10 :: real) 10) = 10
   \<and> run_stdp_test default_tester failing_instrument (py_rep (1 / 10) 10) (py_rep 0 10)
       = Inl InstrumentError"
proof -
  have k: "3 < min (length (py_rep (1 / 10 :: real) 10)) (length (py_rep (0 :: real) 10))"
    by (simp add: py_rep_def)
  have f: "step_reply failing_instrument 3 = None"
    by (simp add: failing_instrument_def failing_reply_def)
  have "run_stdp_test default_tester failing_instrument (py_rep (1 / 10) 10) (py_rep 0 10)
       = Inl InstrumentError"
    by (rule run_stdp_test_step_failure [OF k f])
  then show ?thesis by (simp add: failing_instrument_def failing_reply_def py_rep_def)
qed

theorem executor_failure_loses_data_witness:
  "(3 :: nat) < min (length [1, 2, 3, 4, 5 :: real]) (length [0, 0, 0, 0, 0 :: real])
   \<and> step_reply failing_instrument 3 = None
   \<and> run_stdp_test default_tester failing_instrument [1, 2, 3, 4, 5] [0, 0, 0, 0, 0]
       = Inl InstrumentError
   \<and> setup_ok steady_instrument \<and> shutdown_ok steady_instrument
   \<and> step_reply steady_instrument 0 \<noteq> None \<and> step_reply steady_instrument 1 \<noteq> None
   \<and> run_stdp_test default_tester steady_instrument [1, 2, 3] [7, 8]
       = Inr [\<lparr>Time_s = 0, ChA_V = 1, ChB_V = 7, ChA_I = 1, ChB_I = 2\<rparr>,
              \<lparr>Time_s = 1, ChA_V = 2, ChB_V = 8, ChA_I = 1, ChB_I = 2\<rparr>]"
proof -
  have a: "(3 :: nat) < min (length [1, 2, 3, 4, 5 :: real]) (length [0, 0, 0, 0, 0 :: real])
      \<and> step_reply failing_instrument 3 = None"
    by (simp add: failing_instrument_def failing_reply_def)
  have b: "run_stdp_test default_tester failing_instrument [1, 2, 3, 4, 5] [0, 0, 0, 0, 0]
       = Inl InstrumentError"
    using executor_failure_loses_data
      [of 3 "[1, 2, 3, 4, 5]" "[0, 0, 0, 0, 0]" failing_instrument default_tester] a
    by blast
  have e: "run_stdp_test default_tester steady_instrument [1, 2, 3] [7, 8]
       = Inr [\<lparr>Time_s = 0, ChA_V = 1, ChB_V = 7, ChA_I = 1, ChB_I = 2\<rparr>,
              \<lparr>Time_s = 1, ChA_V = 2, ChB_V = 8, ChA_I = 1, ChB_I = 2\<rparr>]"
    by (simp add: run_stdp_test_def default_tester_def steady_instrument_def steady_reply_def
        stdp_loop.simps rebase_def Let_def)
  show ?thesis using a b e by (simp add: steady_instrument_def steady_reply_def)
qed

section \<open>Properties of srdp\_tester.py\<close>

lemma srdp_read_mask_within:
  "\<bar>Voltage row - v_read\<bar> \<le> 1 / 100 \<Longrightarrow> srdp_read_mask v_read row"
proof -
  assume a: "\<bar>Voltage row - v_read\<bar> \<le> 1 / 100"
  have "0 \<le> 1 / 100000 * \<bar>v_read\<bar>" by simp
  with a show ?thesis unfolding srdp_read_mask_def isclose_def by linarith
qed

text \<open>
  Claim C10. In SRDP data processing, every sample row whose measured voltage is within
  0.01 V of \<open>V_read\<close> is a read row, and the conductance reported for a read row is that
  row's measured current divided by \<open>V_read\<close>. The division is unguarded: the result is
  defined under the precondition \<open>V_read \<noteq> 0\<close>; with \<open>V_read = 0\<close> every row within
  0.01 V of zero matches the read mask and the division is by zero.
\<close>

theorem srdp_conductance:
  "(v_read \<noteq> 0 \<longrightarrow>
      srdp_process_measurement_data v_read data
        = Inr (map Time (filter (srdp_read_mask v_read) data),
               map Voltage (filter (srdp_read_mask v_read) data),
               map Current (filter (srdp_read_mask v_read) data),
               map (\<lambda>row. Current row / v_read) (filter (srdp_read_mask v_read) data)))
   \<and> (\<forall>row \<in> set data. \<bar>Voltage row - v_read\<bar> \<le> 1 / 100
         \<longrightarrow> row \<in> set (filter (srdp_read_mask v_read) data))
   \<and> (v_read = 0 \<and> (\<exists>row \<in> set data. \<bar>Voltage row\<bar> \<le> 1 / 100)
         \<longrightarrow> srdp_process_measurement_data v_read data = Inl ZeroDivisionError)"
proof (intro conjI impI ballI)
  assume "v_read \<noteq> 0"
  then show "srdp_process_measurement_data v_read data
        = Inr (map Time (filter (srdp_read_mask v_read) data),
               map Voltage (filter (srdp_read_mask v_read) data),
               map Current (filter (srdp_read_mask v_read) data),
               map (\<lambda>row. Current row / v_read) (filter (srdp_read_mask v_read) data))"
    by (simp add: srdp_process_measurement_data_def column_div_def Let_def comp_def)
next
  fix row assume "row \<in> set data" and "\<bar>Voltage row - v_read\<bar> \<le> 1 / 100"
  then show "row \<in> set (filter (srdp_read_mask v_read) data)"
    using srdp_read_mask_within by simp
next
  assume a: "v_read = 0 \<and> (\<exists>row \<in> set data. \<bar>Voltage row\<bar> \<le> 1 / 100)"
  then obtain row where r: "row \<in> set data" "\<bar>Voltage row - v_read\<bar> \<le> 1 / 100" by auto
  then have "row \<in> set (filter (srdp_read_mask v_read) data)"
    using srdp_read_mask_within by simp
  then have "filter (srdp_read_mask v_read) data \<noteq> []"
    by (metis empty_iff empty_set)
  then show "srdp_process_measurement_data v_read data = Inl ZeroDivisionError"
    using a by (simp add: srdp_process_measurement_data_def column_div_def Let_def)
qed

theorem srdp_conductance_witness:
  "(1 / 10 :: real) \<noteq> 0
   \<and> srdp_process_measurement_data (1 / 10) srdp_rows
       = Inr ([0, 2], [1 / 10, 21 / 200], [2, 3], [20, 30])
   \<and> \<bar>1 / 1000 :: real\<bar> \<le> 1 / 100
   \<and> srdp_process_measurement_data 0 srdp_rest_rows = Inl ZeroDivisionError"
proof -
  have a: "srdp_process_measurement_data (1 / 10) srdp_rows
       = Inr ([0, 2], [1 / 10, 21 / 200], [2, 3], [20, 30])"
    using srdp_conductance [of "1 / 10" srdp_rows]
    by (simp add: srdp_rows_def srdp_read_mask_def isclose_def)
  have b: "srdp_process_measurement_data 0 srdp_rest_rows = Inl ZeroDivisionError"
    using srdp_conductance [of 0 srdp_rest_rows] by (simp add: srdp_rest_rows_def)
  show ?thesis using a b by simp
qed


end
